theory Spec2Isabelle
  imports Main "HOL-Library.AList"
begin

section \<open>Strings, paths and the scratch area\<close>

text \<open>
  Go strings are byte sequences; they are modelled as \<^typ>\<open>string\<close> (a list of 8-bit
  characters). \<open>split_on\<close> is \<open>strings.Split\<close> for a one-byte separator: the empty string
  splits into one empty field. \<open>split_acc\<close> scans from the left; its accumulator is the
  field being read, last byte first.
\<close>

type_synonym bytes = string

fun split_acc :: "char \<Rightarrow> string \<Rightarrow> string \<Rightarrow> string list" where
  "split_acc c acc [] = [rev acc]"
| "split_acc c acc (x # xs) =
     (if x = c then rev acc # split_acc c [] xs else split_acc c (x # acc) xs)"

definition split_on :: "char \<Rightarrow> string \<Rightarrow> string list" where
  "split_on c s = split_acc c [] s"

text \<open>
  \<open>filepath.Join(dir, name)\<close> drops empty elements and cleans the result lexically:
  empty components and \<open>.\<close> vanish, \<open>..\<close> removes the component before it.
  \<open>resolve\<close> cleans the components of \<open>name\<close> relative to \<open>dir\<close>; the accumulator is
  the cleaned path so far, innermost component first.
\<close>

fun resolve :: "string list \<Rightarrow> string list \<Rightarrow> string list" where
  "resolve acc [] = rev acc"
| "resolve acc (c # cs) =
     (if c = [] \<or> c = ''.'' then resolve acc cs
      else if c = ''..'' then
        (case acc of
           [] \<Rightarrow> resolve [''..''] cs
         | a # as \<Rightarrow> if a = ''..'' then resolve (''..'' # acc) cs else resolve as cs)
      else resolve (c # acc) cs)"

text \<open>
  Where \<open>filepath.Join(dir, name)\<close> points, seen from the directory \<open>dir\<close>:
  the directory itself, an entry directly inside it, a path below a subdirectory of it,
  one of its ancestors, or a path that leaves it and names something else.
\<close>

datatype target = Itself | Inside string | Nested | Ancestor | Outside

definition join_target :: "string \<Rightarrow> target" where
  "join_target name =
     (case resolve [] (split_on (CHR ''/'') name) of
        [] \<Rightarrow> Itself
      | [n] \<Rightarrow> if n = ''..'' then Ancestor else Inside n
      | n # ns \<Rightarrow>
          if n = ''..'' then (if \<forall>m \<in> set ns. m = ''..'' then Ancestor else Outside)
          else Nested)"

text \<open>
  The part of the file system the package touches: the directories that \<open>os.MkdirTemp\<close>
  made for it, in creation order, directly under the system's temporary directory
  (\<open>parent = None\<close>) or under an earlier one. \<open>os.MkdirTemp\<close> appends random digits to the
  pattern and retries until the name is new, so every call that succeeds makes a new
  directory; the digits are not modelled, a directory is identified by its position and
  remembers the pattern it was made from. The files of a directory are an association
  list from name to content. A path variable of the source holds the position of a
  directory, or \<open>None\<close> for the empty string.
\<close>

record dir =
  parent :: "nat option"
  pattern :: string
  entries :: "(string \<times> bytes) list"
  live :: bool

definition is_dir :: "dir list \<Rightarrow> nat option \<Rightarrow> bool" where
  "is_dir fs d = (case d of None \<Rightarrow> False | Some i \<Rightarrow> i < length fs \<and> live (fs ! i))"

definition subdirs :: "dir list \<Rightarrow> nat option \<Rightarrow> nat list" where
  "subdirs fs d = filter (\<lambda>i. live (fs ! i) \<and> parent (fs ! i) = d) [0 ..< length fs]"

text \<open>
  The part of the process and of the operating system that the package reads but does
  not own: how the binary was built (\<open>runtime/coverage\<close> needs \<open>-cover\<close>, and
  \<open>-covermode=atomic\<close> for counters), the names and contents of the files the coverage
  runtime writes, the external \<open>go tool covdata\<close>, and the verdicts of library calls whose
  outcome the package cannot determine (\<open>None\<close>: no error).
\<close>

datatype covermode = NoCover | CoverSet | CoverCount | CoverAtomic

record env =
  covermode :: covermode
  meta_name :: string
  meta_data :: bytes
  counters_name :: string
  counters_data :: bytes
  temp_dir_err :: "string option"
  new_request_err :: "string \<Rightarrow> string option"
  create_outside_err :: "string \<Rightarrow> string option"
  file_write_err :: "bytes \<Rightarrow> string option"
  read_dir_err :: "string option"
  read_file_err :: "string \<Rightarrow> string option"
  covdata_merge :: "dir list \<Rightarrow> nat list \<Rightarrow> nat option \<Rightarrow> string option"
  covdata_percent :: "dir list \<Rightarrow> nat option \<Rightarrow> string + string"

text \<open>
  \<open>os.MkdirTemp(parentDir, pattern)\<close>: it is an error if the pattern contains a path
  separator; an empty \<open>parentDir\<close> stands for the system's temporary directory; otherwise
  \<open>parentDir\<close> must exist. On success a new empty directory appears.
\<close>

definition new_dir :: "nat option \<Rightarrow> string \<Rightarrow> dir list \<Rightarrow> nat option \<times> dir list" where
  "new_dir parentDir pat fs =
     (Some (length fs), fs @ [\<lparr>parent = parentDir, pattern = pat, entries = [], live = True\<rparr>])"

definition os_MkdirTemp ::
  "env \<Rightarrow> nat option \<Rightarrow> string \<Rightarrow> dir list \<Rightarrow> string + (nat option \<times> dir list)" where
  "os_MkdirTemp e parentDir pat fs =
     (if CHR ''/'' \<in> set pat then Inl ''pattern contains path separator''
      else case parentDir of
        None \<Rightarrow>
          (case temp_dir_err e of
             Some m \<Rightarrow> Inl m
           | None \<Rightarrow> Inr (new_dir parentDir pat fs))
      | Some i \<Rightarrow>
          if is_dir fs parentDir then Inr (new_dir parentDir pat fs)
          else Inl ''no such file or directory'')"

text \<open>
  \<open>coverage.WriteMetaDir(dir)\<close> fails when the binary has no coverage meta-data, and when
  \<open>dir\<close> is not an existing directory (the empty path never is); otherwise it writes the
  meta-data file into \<open>dir\<close>. \<open>coverage.WriteCountersDir(dir)\<close> and
  \<open>coverage.ClearCounters()\<close> need a binary built with \<open>-covermode=atomic\<close>.
\<close>

definition put_file :: "nat \<Rightarrow> string \<Rightarrow> bytes \<Rightarrow> dir list \<Rightarrow> dir list" where
  "put_file i name data fs =
     fs[i := (fs ! i)\<lparr>entries := AList.update name data (entries (fs ! i))\<rparr>]"

definition coverage_WriteMetaDir :: "env \<Rightarrow> nat option \<Rightarrow> dir list \<Rightarrow> string + dir list" where
  "coverage_WriteMetaDir e d fs =
     (if covermode e = NoCover then Inl ''no meta-data available''
      else case d of
        None \<Rightarrow> Inl ''output directory inaccessible''
      | Some i \<Rightarrow>
          if is_dir fs d then Inr (put_file i (meta_name e) (meta_data e) fs)
          else Inl ''output directory inaccessible'')"

definition coverage_WriteCountersDir :: "env \<Rightarrow> nat option \<Rightarrow> dir list \<Rightarrow> string + dir list" where
  "coverage_WriteCountersDir e d fs =
     (if covermode e \<noteq> CoverAtomic then Inl ''please use -covermode=atomic''
      else case d of
        None \<Rightarrow> Inl ''output directory inaccessible''
      | Some i \<Rightarrow>
          if is_dir fs d then Inr (put_file i (counters_name e) (counters_data e) fs)
          else Inl ''output directory inaccessible'')"


text \<open>
  \<open>os.Create(filepath.Join(tmpCov, fileName))\<close>, for a directory \<open>tmpCov\<close> that holds
  regular files only. Opening a directory for writing fails (\<open>EISDIR\<close>), so does a path
  through a missing subdirectory; a plain name creates or truncates that file in
  \<open>tmpCov\<close>. A name that leaves \<open>tmpCov\<close>, and any name when \<open>tmpCov\<close> is the empty path
  (then the name is relative to the working directory), reaches a part of the file system
  the model does not track: the environment decides whether it can be created, and the
  file is not recorded.
\<close>

datatype handle = InDir nat string | Untracked

definition create_untracked :: "env \<Rightarrow> string \<Rightarrow> dir list \<Rightarrow> string + (handle \<times> dir list)" where
  "create_untracked e fileName fs =
     (case create_outside_err e fileName of
        Some m \<Rightarrow> Inl m
      | None \<Rightarrow> Inr (Untracked, fs))"

definition os_Create ::
  "env \<Rightarrow> nat option \<Rightarrow> string \<Rightarrow> dir list \<Rightarrow> string + (handle \<times> dir list)" where
  "os_Create e tmpCov fileName fs =
     (case join_target fileName of
        Itself \<Rightarrow> Inl (if tmpCov = None then ''no such file or directory'' else ''is a directory'')
      | Ancestor \<Rightarrow> Inl ''is a directory''
      | Outside \<Rightarrow> create_untracked e fileName fs
      | Nested \<Rightarrow>
          (case tmpCov of
             None \<Rightarrow> create_untracked e fileName fs
           | Some i \<Rightarrow> Inl ''no such file or directory'')
      | Inside n \<Rightarrow>
          (case tmpCov of
             None \<Rightarrow> create_untracked e fileName fs
           | Some i \<Rightarrow>
               if is_dir fs tmpCov then Inr (InDir i n, put_file i n [] fs)
               else Inl ''no such file or directory''))"

definition file_Write :: "env \<Rightarrow> handle \<Rightarrow> bytes \<Rightarrow> dir list \<Rightarrow> string + dir list" where
  "file_Write e f p fs =
     (case file_write_err e p of
        Some m \<Rightarrow> Inl m
      | None \<Rightarrow>
          (case f of
             InDir i n \<Rightarrow> Inr (put_file i n p fs)
           | Untracked \<Rightarrow> Inr fs))"

section \<open>Errors\<close>

text \<open>
  One constructor for each place where the package makes or passes on an error; the
  argument is the text of the wrapped cause. \<open>error_message\<close> is the text \<open>Error()\<close> returns.
\<close>

datatype error =
    RequestsTimeoutExceeded
  | NewRequestError string
  | FailedToPerformRequest string
  | FailedToReadResponseBody string
  | FailedToWriteResponse error
  | ErrorWritingMeta string
  | ErrorCreatingFile string
  | ErrorWritingToFile string
  | ErrorCreatingTempDir string
  | ErrorWritingCoverage string
  | ReadDirError string
  | MkdirTempError string
  | ErrorMerging string
  | FailedToParseCoverage string
  | ErrorReadingOutput string
  | NoCoverageData

fun error_message :: "error \<Rightarrow> string" where
  "error_message RequestsTimeoutExceeded = ''requests timeout exceeded''"
| "error_message (NewRequestError m) = m"
| "error_message (FailedToPerformRequest m) = ''failed to perform request: '' @ m"
| "error_message (FailedToReadResponseBody m) = ''failed to read response body: '' @ m"
| "error_message (FailedToWriteResponse c) =
     ''failed to write response to file: '' @ error_message c"
| "error_message (ErrorWritingMeta m) = ''error writing meta coverage data: '' @ m"
| "error_message (ErrorCreatingFile m) = ''error creating file: '' @ m"
| "error_message (ErrorWritingToFile m) = ''error writing to file: '' @ m"
| "error_message (ErrorCreatingTempDir m) = ''error creating temporary directory: '' @ m"
| "error_message (ErrorWritingCoverage m) = ''error writing coverage data: '' @ m"
| "error_message (ReadDirError m) = m"
| "error_message (MkdirTempError m) = m"
| "error_message (ErrorMerging m) = ''error running merging coverage data: '' @ m"
| "error_message (FailedToParseCoverage m) = ''failed to parse coverage value: '' @ m"
| "error_message (ErrorReadingOutput m) = ''error reading output: '' @ m"
| "error_message NoCoverageData = ''no coverage data found in the output''"

section \<open>The package state and the peer loops\<close>

text \<open>
  The package-level variables. \<open>hostname\<close> is initialised once, when the package is
  loaded, from the result of \<open>os.Hostname()\<close> and, if that failed, from \<open>rand.Int()\<close>
  (a non-negative integer) printed with \<open>%d\<close>. Nothing in the package assigns it again;
  the only assignments to package variables are those of the two setters.
\<close>

datatype logger = DefaultLogger | CustomLogger nat

record proc =
  hostname :: string
  numberPods :: int
  covLogger :: logger

definition digit :: "nat \<Rightarrow> char" where
  "digit d = ''0123456789'' ! d"

fun decimal :: "nat \<Rightarrow> string" where
  "decimal n =
     (if n < 10 then [digit n]
      else decimal (n div 10) @ [digit (n mod 10)])"

definition hostname_init :: "string + string \<Rightarrow> nat \<Rightarrow> string" where
  "hostname_init looked_up rand_Int =
     (case looked_up of
        Inl err \<Rightarrow> ''generated-hostname-'' @ decimal rand_Int
      | Inr name \<Rightarrow> name)"

definition package_init :: "string + string \<Rightarrow> nat \<Rightarrow> proc" where
  "package_init looked_up rand_Int =
     \<lparr>hostname = hostname_init looked_up rand_Int, numberPods = 1, covLogger = DefaultLogger\<rparr>"

definition SetNumberPods :: "int \<Rightarrow> proc \<Rightarrow> proc" where
  "SetNumberPods n p = p\<lparr>numberPods := n\<rparr>"

definition SetLogger :: "logger \<Rightarrow> proc \<Rightarrow> proc" where
  "SetLogger l p = p\<lparr>covLogger := l\<rparr>"

datatype setter = CallSetNumberPods int | CallSetLogger logger

fun apply_setter :: "proc \<Rightarrow> setter \<Rightarrow> proc" where
  "apply_setter p (CallSetNumberPods n) = SetNumberPods n p"
| "apply_setter p (CallSetLogger l) = SetLogger l p"

definition hostnameHeader :: string where
  "hostnameHeader = ''x-hostname''"

definition filenameHeader :: string where
  "filenameHeader = ''x-filename''"

text \<open>Durations are nanoseconds, as \<open>time.Duration\<close> is.\<close>

definition second :: int where
  "second = 1000000000"

definition reqTimeout :: int where
  "reqTimeout = 3 * second"

definition allReqTimeout :: int where
  "allReqTimeout = 15 * second"

text \<open>
  \<open>write\<close> of the source (the name is reserved in Isabelle): the error of \<open>os.MkdirTemp\<close> is
  dropped and \<open>tmpCov\<close> is then the empty path, as in the source; what was written before a
  failure stays on disk.
\<close>

definition write_fn ::
  "env \<Rightarrow> bytes \<Rightarrow> dir list \<Rightarrow> nat option \<Rightarrow> string \<Rightarrow> string \<Rightarrow> error option \<times> dir list" where
  "write_fn e p fs parentDir dirName fileName =
     (let (tmpCov, fs0) = (case os_MkdirTemp e parentDir dirName fs of
                             Inl m \<Rightarrow> (None, fs)
                           | Inr made \<Rightarrow> made) in
      case coverage_WriteMetaDir e tmpCov fs0 of
        Inl m \<Rightarrow> (Some (ErrorWritingMeta m), fs0)
      | Inr fs1 \<Rightarrow>
          (case os_Create e tmpCov fileName fs1 of
             Inl m \<Rightarrow> (Some (ErrorCreatingFile m), fs1)
           | Inr (f, fs2) \<Rightarrow>
               (case file_Write e f p fs2 of
                  Inl m \<Rightarrow> (Some (ErrorWritingToFile m), fs2)
                | Inr fs3 \<Rightarrow> (None, fs3))))"

text \<open>
  A response as the loops read it: the header map (\<open>Header.Get\<close> gives the empty string
  for a missing key), and what \<open>io.ReadAll(resp.Body)\<close> returns. The status code is carried
  but never inspected by the loops.
\<close>

record response =
  status :: nat
  header :: "string \<rightharpoonup> string"
  body :: "string + bytes"

definition Header_Get :: "(string \<rightharpoonup> string) \<Rightarrow> string \<Rightarrow> string" where
  "Header_Get h k = (case h k of None \<Rightarrow> [] | Some v \<Rightarrow> v)"

text \<open>
  One loop iteration as the environment answers it: the value \<open>time.Since(now)\<close> has when
  the iteration reads it, and the result of \<open>http.DefaultClient.Do\<close> (an error text, or a
  response).
\<close>

record exchange =
  since :: int
  reply :: "string + response"

text \<open>
  The loop state: the \<open>hosts\<close> map (a set, its values are empty structs), the file system,
  and a count of the requests handed to \<open>http.DefaultClient.Do\<close>, which the source does
  not keep and the claims speak about.
\<close>

record cstate =
  hosts :: "string set"
  disk :: "dir list"
  requests :: nat

text \<open>
  A run over a finite list of exchanges either returns (with the error, \<open>None\<close> for
  \<open>nil\<close>), or has used every exchange and is still looping.
\<close>

datatype outcome = Returned "error option" cstate | Awaiting cstate

fun requestLoop ::
  "env \<Rightarrow> proc \<Rightarrow> nat option \<Rightarrow> string \<Rightarrow> cstate \<Rightarrow> exchange list \<Rightarrow> outcome" where
  "requestLoop e p parentDir url st [] =
     (if int (card (hosts st)) < numberPods p then Awaiting st else Returned None st)"
| "requestLoop e p parentDir url st (x # xs) =
     (if int (card (hosts st)) < numberPods p then
        if since x > allReqTimeout then Returned (Some RequestsTimeoutExceeded) st
        else case new_request_err e url of
          Some m \<Rightarrow> Returned (Some (NewRequestError m)) st
        | None \<Rightarrow>
            (let st1 = st\<lparr>requests := Suc (requests st)\<rparr> in
             case reply x of
               Inl m \<Rightarrow> Returned (Some (FailedToPerformRequest m)) st1
             | Inr resp \<Rightarrow>
                 (let responseHostname = Header_Get (header resp) hostnameHeader;
                      filename = Header_Get (header resp) filenameHeader
                  in if responseHostname \<in> hosts st1 then requestLoop e p parentDir url st1 xs
                     else
                       (let st2 = st1\<lparr>hosts := insert responseHostname (hosts st1)\<rparr> in
                        case body resp of
                          Inl m \<Rightarrow> Returned (Some (FailedToReadResponseBody m)) st2
                        | Inr b \<Rightarrow>
                            (case write_fn e b (disk st2) parentDir responseHostname filename of
                               (Some err, fs) \<Rightarrow>
                                 Returned (Some (FailedToWriteResponse err)) (st2\<lparr>disk := fs\<rparr>)
                             | (None, fs) \<Rightarrow>
                                 requestLoop e p parentDir url (st2\<lparr>disk := fs\<rparr>) xs))))
      else Returned None st)"

definition requestOtherProfile ::
  "env \<Rightarrow> proc \<Rightarrow> dir list \<Rightarrow> nat option \<Rightarrow> string \<Rightarrow> exchange list \<Rightarrow> outcome" where
  "requestOtherProfile e p fs parentDir profileURL xs =
     requestLoop e p parentDir profileURL \<lparr>hosts = {hostname p}, disk = fs, requests = 0\<rparr> xs"

fun resetLoop :: "env \<Rightarrow> proc \<Rightarrow> string \<Rightarrow> cstate \<Rightarrow> exchange list \<Rightarrow> outcome" where
  "resetLoop e p url st [] =
     (if int (card (hosts st)) < numberPods p then Awaiting st else Returned None st)"
| "resetLoop e p url st (x # xs) =
     (if int (card (hosts st)) < numberPods p then
        if since x > allReqTimeout then Returned (Some RequestsTimeoutExceeded) st
        else case new_request_err e url of
          Some m \<Rightarrow> Returned (Some (NewRequestError m)) st
        | None \<Rightarrow>
            (let st1 = st\<lparr>requests := Suc (requests st)\<rparr> in
             case reply x of
               Inl m \<Rightarrow> Returned (Some (FailedToPerformRequest m)) st1
             | Inr resp \<Rightarrow>
                 (let responseHostname = Header_Get (header resp) hostnameHeader
                  in if responseHostname \<in> hosts st1 then resetLoop e p url st1 xs
                     else resetLoop e p url
                            (st1\<lparr>hosts := insert responseHostname (hosts st1)\<rparr>) xs))
      else Returned None st)"

definition resetOtherProfile ::
  "env \<Rightarrow> proc \<Rightarrow> dir list \<Rightarrow> string \<Rightarrow> exchange list \<Rightarrow> outcome" where
  "resetOtherProfile e p fs resetURL xs =
     resetLoop e p resetURL \<lparr>hosts = {hostname p}, disk = fs, requests = 0\<rparr> xs"

section \<open>The aggregator\<close>

text \<open>
  \<open>strings.HasPrefix\<close>, \<open>strings.Contains\<close>, and \<open>strings.Split(line, "coverage:")\<close>: the
  pieces between the non-overlapping occurrences of the marker, found from the left
  (\<open>marker_acc\<close> scans with the piece being read as its accumulator, last byte first).
\<close>

definition has_prefix :: "string \<Rightarrow> string \<Rightarrow> bool" where
  "has_prefix s pre = (take (length pre) s = pre)"

fun str_contains :: "string \<Rightarrow> string \<Rightarrow> bool" where
  "str_contains [] sub = (sub = [])"
| "str_contains (x # xs) sub = (has_prefix (x # xs) sub \<or> str_contains xs sub)"

definition marker :: string where
  "marker = ''coverage:''"

function marker_acc :: "string \<Rightarrow> string \<Rightarrow> string list" where
  "marker_acc acc s =
     (if has_prefix s marker then rev acc # marker_acc [] (drop (length marker) s)
      else case s of
        [] \<Rightarrow> [rev acc]
      | x # xs \<Rightarrow> marker_acc (x # acc) xs)"
  by pat_completeness auto
termination
proof (relation "measure (\<lambda>(acc, s). length s)")
  show "wf (measure (\<lambda>(acc :: string, s :: string). length s))"
    by simp
next
  fix acc s :: string
  assume "has_prefix s marker"
  then have "s \<noteq> []"
    by (auto simp: has_prefix_def marker_def)
  then show "(([], drop (length marker) s), (acc, s)) \<in> measure (\<lambda>(acc, s). length s)"
    by (simp add: marker_def)
next
  fix acc s :: string and x xs
  assume "s = x # xs"
  then show "((x # acc, xs), (acc, s)) \<in> measure (\<lambda>(acc, s). length s)"
    by simp
qed

declare marker_acc.simps [simp del]

definition split_marker :: "string \<Rightarrow> string list" where
  "split_marker s = marker_acc [] s"

text \<open>
  \<open>strings.TrimSpace\<close> removes, from both ends, every code point with Unicode's White_Space
  property. On the bytes of a string these are the following UTF-8 sequences: the six
  ASCII spaces, U+0085, U+00A0, U+1680, U+2000 to U+200A, U+2028, U+2029, U+202F, U+205F
  and U+3000.
\<close>

definition white_space :: "string list" where
  "white_space =
     [[CHR 0x09], [CHR 0x0A], [CHR 0x0B], [CHR 0x0C], [CHR 0x0D], [CHR 0x20],
      [CHR 0xC2, CHR 0x85], [CHR 0xC2, CHR 0xA0], [CHR 0xE1, CHR 0x9A, CHR 0x80],
      [CHR 0xE2, CHR 0x80, CHR 0x80], [CHR 0xE2, CHR 0x80, CHR 0x81],
      [CHR 0xE2, CHR 0x80, CHR 0x82], [CHR 0xE2, CHR 0x80, CHR 0x83],
      [CHR 0xE2, CHR 0x80, CHR 0x84], [CHR 0xE2, CHR 0x80, CHR 0x85],
      [CHR 0xE2, CHR 0x80, CHR 0x86], [CHR 0xE2, CHR 0x80, CHR 0x87],
      [CHR 0xE2, CHR 0x80, CHR 0x88], [CHR 0xE2, CHR 0x80, CHR 0x89],
      [CHR 0xE2, CHR 0x80, CHR 0x8A], [CHR 0xE2, CHR 0x80, CHR 0xA8],
      [CHR 0xE2, CHR 0x80, CHR 0xA9], [CHR 0xE2, CHR 0x80, CHR 0xAF],
      [CHR 0xE2, CHR 0x81, CHR 0x9F], [CHR 0xE3, CHR 0x80, CHR 0x80]]"

function strip_leading :: "string list \<Rightarrow> string \<Rightarrow> string" where
  "strip_leading pats s =
     (case find (\<lambda>sp. sp \<noteq> [] \<and> has_prefix s sp) pats of
        Some sp \<Rightarrow> strip_leading pats (drop (length sp) s)
      | None \<Rightarrow> s)"
  by pat_completeness auto
termination
proof (relation "measure (\<lambda>(pats, s). length s)")
  show "wf (measure (\<lambda>(pats, s). length s))"
    by simp
next
  fix pats :: "string list" and s sp :: string
  assume "find (\<lambda>sp. sp \<noteq> [] \<and> has_prefix s sp) pats = Some sp"
  then have "sp \<noteq> []" and "has_prefix s sp"
    by (auto simp: find_Some_iff)
  then have "s \<noteq> []"
    by (auto simp: has_prefix_def)
  with \<open>sp \<noteq> []\<close> show "((pats, drop (length sp) s), (pats, s)) \<in> measure (\<lambda>(pats, s). length s)"
    by simp
qed

declare strip_leading.simps [simp del]

definition TrimSpace :: "string \<Rightarrow> string" where
  "TrimSpace s = rev (strip_leading (map rev white_space) (rev (strip_leading white_space s)))"

text \<open>
  \<open>bufio.Scanner\<close> with its default split function: the lines are the pieces between
  newlines, the piece after the last newline counts only when it is not empty, and one
  trailing carriage return is dropped from each line. The scanner's buffer holds
  \<open>MaxScanTokenSize\<close> bytes: at a line that does not fit together with its newline the scan
  stops, and \<open>scanner.Err()\<close> is \<open>ErrTooLong\<close>.
\<close>

definition MaxScanTokenSize :: nat where
  "MaxScanTokenSize = 65536"

definition raw_lines :: "string \<Rightarrow> string list" where
  "raw_lines s =
     (let pieces = split_on (CHR 0x0A) s
      in if last pieces = [] then butlast pieces else pieces)"

definition dropCR :: "string \<Rightarrow> string" where
  "dropCR l = (if l \<noteq> [] \<and> last l = CHR 0x0D then butlast l else l)"

text \<open>
  \<open>float64\<close> and the library functions on it are parameters of the model:
  \<open>strconv.ParseFloat(s, 64)\<close> (an error text, or the value), the zero value, addition,
  division, the conversion \<open>float64(n)\<close>, and \<open>%.2f\<close>.
\<close>

record 'f float_ops =
  ParseFloat :: "string \<Rightarrow> string + 'f"
  fzero :: 'f
  fadd :: "'f \<Rightarrow> 'f \<Rightarrow> 'f"
  fdiv :: "'f \<Rightarrow> 'f \<Rightarrow> 'f"
  of_count :: "int \<Rightarrow> 'f"
  format2 :: "'f \<Rightarrow> string"

text \<open>
  The scanning loop of \<open>calculateTotalCoverage\<close>, over the lines still to be scanned, with
  \<open>totalCoverage\<close> and \<open>packageCount\<close> so far. It returns early on a parse error; otherwise
  it ends with the two variables and \<open>scanner.Err()\<close>.
\<close>

fun scanLoop ::
  "'f float_ops \<Rightarrow> 'f \<Rightarrow> int \<Rightarrow> string list \<Rightarrow> error + ('f \<times> int \<times> string option)" where
  "scanLoop ops totalCoverage packageCount [] = Inr (totalCoverage, packageCount, None)"
| "scanLoop ops totalCoverage packageCount (raw # rest) =
     (if length raw \<ge> MaxScanTokenSize then
        Inr (totalCoverage, packageCount, Some ''bufio.Scanner: token too long'')
      else
        (let line = dropCR raw in
         if str_contains line marker then
           (let parts = split_marker line in
            if length parts \<noteq> 2 then scanLoop ops totalCoverage packageCount rest
            else
              (let coveragePart = TrimSpace (parts ! 1);
                   coverageValue = TrimSpace (hd (split_on (CHR ''%'') coveragePart))
               in case ParseFloat ops coverageValue of
                    Inl m \<Rightarrow> Inl (FailedToParseCoverage m)
                  | Inr coverage \<Rightarrow>
                      (let packages = split_on (CHR 0x09) (parts ! 0);
                           counted = filter (\<lambda>pkg. TrimSpace pkg \<noteq> []) packages
                       in scanLoop ops (fadd ops totalCoverage coverage)
                            (packageCount + int (length counted)) rest)))
         else scanLoop ops totalCoverage packageCount rest))"

definition calculateTotalCoverage :: "'f float_ops \<Rightarrow> string \<Rightarrow> error + 'f" where
  "calculateTotalCoverage ops output =
     (case scanLoop ops (fzero ops) 0 (raw_lines output) of
        Inl err \<Rightarrow> Inl err
      | Inr (totalCoverage, packageCount, Some m) \<Rightarrow> Inl (ErrorReadingOutput m)
      | Inr (totalCoverage, packageCount, None) \<Rightarrow>
          if packageCount = 0 then Inl NoCoverageData
          else Inr (fdiv ops totalCoverage (of_count ops packageCount)))"

subsection \<open>The aggregator in the words of the specification\<close>

text \<open>
  The lines that are scanned are those before the first line that is too long for the
  scanner. A coverage line contains the marker exactly once; its percentage is the
  trimmed text between the marker and the first percent sign, and its units are the
  tab-separated tokens before the marker that are not empty after trimming. The result
  is a parse error for the first percentage that is not a number; else a read error
  when a line was too long; else the no-data error when no unit was counted; else the
  sum of the percentages, added from the first to the last, divided by the number of
  units.
\<close>

definition short :: "string \<Rightarrow> bool" where
  "short l = (length l < MaxScanTokenSize)"

definition scanned :: "string \<Rightarrow> string list" where
  "scanned output = map dropCR (takeWhile short (raw_lines output))"

definition coverage_line :: "string \<Rightarrow> bool" where
  "coverage_line l = (length (split_marker l) = 2)"

definition percentage :: "string \<Rightarrow> string" where
  "percentage l = TrimSpace (takeWhile (\<lambda>c. c \<noteq> CHR ''%'') (TrimSpace (split_marker l ! 1)))"

definition units :: "string \<Rightarrow> nat" where
  "units l =
     length (filter (\<lambda>t. TrimSpace t \<noteq> []) (split_on (CHR 0x09) (split_marker l ! 0)))"

fun parse_all :: "'f float_ops \<Rightarrow> string list \<Rightarrow> string + 'f list" where
  "parse_all ops [] = Inr []"
| "parse_all ops (t # ts) =
     (case ParseFloat ops t of
        Inl m \<Rightarrow> Inl m
      | Inr v \<Rightarrow>
          (case parse_all ops ts of
             Inl m \<Rightarrow> Inl m
           | Inr vs \<Rightarrow> Inr (v # vs)))"

definition mean_coverage :: "'f float_ops \<Rightarrow> string \<Rightarrow> error + 'f" where
  "mean_coverage ops output =
     (let ls = filter coverage_line (scanned output) in
      case parse_all ops (map percentage ls) of
        Inl m \<Rightarrow> Inl (FailedToParseCoverage m)
      | Inr vs \<Rightarrow>
          if \<not> list_all short (raw_lines output)
          then Inl (ErrorReadingOutput ''bufio.Scanner: token too long'')
          else if sum_list (map units ls) = 0 then Inl NoCoverageData
          else Inr (fdiv ops (foldl (fadd ops) (fzero ops) vs)
                      (of_count ops (int (sum_list (map units ls))))))"

section \<open>The handlers\<close>

text \<open>
  An inbound request, as far as the handlers read it: the header map, \<open>r.Host\<close>, and whether
  \<open>r.TLS\<close> is set.
\<close>

record request =
  req_header :: "string \<rightharpoonup> string"
  host :: string
  tls :: bool

definition getURL :: "request \<Rightarrow> bool \<Rightarrow> string" where
  "getURL r isReset =
     (if tls r then ''https'' else ''http'') @ ''://'' @ host r @
     (if isReset then ''/debug/coverage/reset'' else ''/debug/coverage/profile'')"

text \<open>
  \<open>http.ResponseWriter\<close>: the first \<open>WriteHeader\<close> fixes the status code and the headers
  that are sent, later calls are ignored; \<open>Write\<close> sends status 200 first when no header has
  been written, and appends to the body; the header map can still be changed afterwards,
  without effect on what was sent. When a handler returns without having written
  anything, the server sends status 200 with an empty body.
\<close>

record rw =
  wroteHeader :: bool
  code :: nat
  hdr :: "string \<rightharpoonup> string"
  sent_hdr :: "string \<rightharpoonup> string"
  out :: bytes

definition new_rw :: rw where
  "new_rw = \<lparr>wroteHeader = False, code = 0, hdr = Map.empty, sent_hdr = Map.empty, out = []\<rparr>"

definition WriteHeader :: "nat \<Rightarrow> rw \<Rightarrow> rw" where
  "WriteHeader c w =
     (if wroteHeader w then w else w\<lparr>wroteHeader := True, code := c, sent_hdr := hdr w\<rparr>)"

definition Write_body :: "bytes \<Rightarrow> rw \<Rightarrow> rw" where
  "Write_body data w = (let w1 = WriteHeader 200 w in w1\<lparr>out := out w1 @ data\<rparr>)"

definition Header_Set :: "string \<Rightarrow> string \<Rightarrow> rw \<Rightarrow> rw" where
  "Header_Set k v w = w\<lparr>hdr := (hdr w)(k \<mapsto> v)\<rparr>"

definition StatusOK :: nat where
  "StatusOK = 200"

definition StatusInternalServerError :: nat where
  "StatusInternalServerError = 500"

text \<open>The response a client gets once the handler has returned.\<close>

definition response_of :: "rw \<Rightarrow> response" where
  "response_of w =
     (let w1 = WriteHeader 200 w
      in \<lparr>status = code w1, header = sent_hdr w1, body = Inr (out w1)\<rparr>)"

text \<open>
  What a handler leaves behind: the response writer, the messages given to
  \<open>covLogger.Errorf\<close>, the file system, the number of outbound requests, whether the
  counters were cleared, and the calls the handler made, in order. Output to the standard
  output is not recorded.
\<close>

datatype call =
    Call_ClearCounters
  | Call_resetOtherProfile
  | Call_writeBinCoverage
  | Call_requestOtherProfile
  | Call_mergeProfiles
  | Call_covdata_percent
  | Call_calculateTotalCoverage
  | Call_MkdirTemp
  | Call_WriteMetaDir
  | Call_WriteCountersDir
  | Call_ReadDir

record hstate =
  w :: rw
  errors_logged :: "string list"
  fsys :: "dir list"
  sent :: nat
  cleared :: bool
  calls :: "call list"

definition new_hstate :: "dir list \<Rightarrow> hstate" where
  "new_hstate fs =
     \<lparr>w = new_rw, errors_logged = [], fsys = fs, sent = 0, cleared = False, calls = []\<rparr>"

definition called :: "call \<Rightarrow> hstate \<Rightarrow> hstate" where
  "called c s = s\<lparr>calls := calls s @ [c]\<rparr>"

definition Errorf :: "string \<Rightarrow> hstate \<Rightarrow> hstate" where
  "Errorf m s = s\<lparr>errors_logged := errors_logged s @ [m]\<rparr>"

definition respond :: "(rw \<Rightarrow> rw) \<Rightarrow> hstate \<Rightarrow> hstate" where
  "respond f s = s\<lparr>w := f (w s)\<rparr>"

text \<open>
  \<open>os.RemoveAll(dir)\<close> removes a directory with its files and the directories in it.
  \<open>os.ReadDir(dir)\<close> gives the files and the subdirectories of \<open>dir\<close>; Go sorts them by
  name, the model lists them in the order they were created.
\<close>

definition os_RemoveAll :: "nat option \<Rightarrow> dir list \<Rightarrow> dir list" where
  "os_RemoveAll d fs =
     (case d of
        None \<Rightarrow> fs
      | Some i \<Rightarrow>
          map (\<lambda>k. if k = i \<or> parent (fs ! k) = Some i
                    then (fs ! k)\<lparr>entries := [], live := False\<rparr> else fs ! k)
              [0 ..< length fs])"

definition os_ReadDir ::
  "env \<Rightarrow> nat option \<Rightarrow> dir list \<Rightarrow> string + ((string \<times> bytes) list \<times> nat list)" where
  "os_ReadDir e d fs =
     (case d of
        None \<Rightarrow> Inl ''no such file or directory''
      | Some i \<Rightarrow>
          if \<not> is_dir fs d then Inl ''no such file or directory''
          else
            (case read_dir_err e of
               Some m \<Rightarrow> Inl m
             | None \<Rightarrow> Inr (entries (fs ! i), subdirs fs d)))"

subsection \<open>writeBinCoverage and mergeProfiles\<close>

definition writeBinCoverage :: "env \<Rightarrow> proc \<Rightarrow> dir list \<Rightarrow> (nat option \<times> error option) \<times> dir list" where
  "writeBinCoverage e p fs =
     (case os_MkdirTemp e None ''coverage'' fs of
        Inl m \<Rightarrow> ((None, Some (ErrorCreatingTempDir m)), fs)
      | Inr (tmpDir, fs1) \<Rightarrow>
          (case os_MkdirTemp e tmpDir (hostname p) fs1 of
             Inl m \<Rightarrow> ((None, Some (ErrorCreatingTempDir m)), fs1)
           | Inr (tmpCov, fs2) \<Rightarrow>
               (case coverage_WriteMetaDir e tmpCov fs2 of
                  Inl m \<Rightarrow> ((None, Some (ErrorWritingMeta m)), fs2)
                | Inr fs3 \<Rightarrow>
                    (case coverage_WriteCountersDir e tmpCov fs3 of
                       Inl m \<Rightarrow> ((None, Some (ErrorWritingCoverage m)), fs3)
                     | Inr fs4 \<Rightarrow> ((tmpDir, None), fs4)))))"

definition mergeProfiles :: "env \<Rightarrow> nat option \<Rightarrow> dir list \<Rightarrow> (nat option \<times> error option) \<times> dir list" where
  "mergeProfiles e tmpDir fs =
     (case os_ReadDir e tmpDir fs of
        Inl m \<Rightarrow> ((None, Some (ReadDirError m)), fs)
      | Inr (files, dirs) \<Rightarrow>
          (case os_MkdirTemp e tmpDir ''merged'' fs of
             Inl m \<Rightarrow> ((None, Some (MkdirTempError m)), fs)
           | Inr (mergedDir, fs1) \<Rightarrow>
               (case covdata_merge e fs1 dirs mergedDir of
                  Some m \<Rightarrow> ((None, Some (ErrorMerging m)), fs1)
                | None \<Rightarrow> ((mergedDir, None), fs1))))"

subsection \<open>CovResetHandler\<close>


subsection \<open>CovBinProfileHandler\<close>

text \<open>One round of the loop over the files of the temporary directory.\<close>

definition serve_file :: "env \<Rightarrow> proc \<Rightarrow> rw \<Rightarrow> string \<times> bytes \<Rightarrow> rw" where
  "serve_file e p wr f =
     (if \<not> has_prefix (fst f) ''covcounters'' then wr
      else case read_file_err e (fst f) of
        Some m \<Rightarrow> wr
      | None \<Rightarrow>
          Write_body (snd f)
            (Header_Set hostnameHeader (hostname p)
               (Header_Set filenameHeader (fst f)
                  (Header_Set ''Content-Type'' ''application/octet-stream'' wr))))"

text \<open>
  The part of \<open>CovBinProfileHandler\<close> after the deferred \<open>os.RemoveAll(tmpDir)\<close> is
  registered; the removal runs when it returns.
\<close>

definition dump_profile :: "env \<Rightarrow> proc \<Rightarrow> nat option \<Rightarrow> hstate \<Rightarrow> hstate" where
  "dump_profile e p tmpDir s =
     (let s1 = called Call_WriteMetaDir s in
      case coverage_WriteMetaDir e tmpDir (fsys s1) of
        Inl m \<Rightarrow>
          respond (WriteHeader StatusInternalServerError)
            (Errorf (''error writing meta data: '' @ m) s1)
      | Inr fs1 \<Rightarrow>
          (let s2 = called Call_WriteCountersDir (s1\<lparr>fsys := fs1\<rparr>) in
           case coverage_WriteCountersDir e tmpDir (fsys s2) of
             Inl m \<Rightarrow>
               respond (WriteHeader StatusInternalServerError)
                 (Errorf (''error writing counters data: '' @ m) s2)
           | Inr fs2 \<Rightarrow>
               (let s3 = called Call_ReadDir (s2\<lparr>fsys := fs2\<rparr>) in
                case os_ReadDir e tmpDir (fsys s3) of
                  Inl m \<Rightarrow>
                    respond (WriteHeader StatusInternalServerError)
                      (Errorf (''error reading temporary directory: '' @ m) s3)
                | Inr (files, dirs) \<Rightarrow> respond (\<lambda>wr. foldl (serve_file e p) wr files) s3)))"

definition CovBinProfileHandler :: "env \<Rightarrow> proc \<Rightarrow> request \<Rightarrow> hstate \<Rightarrow> hstate" where
  "CovBinProfileHandler e p r s =
     (if Header_Get (req_header r) hostnameHeader = hostname p then
        respond (WriteHeader StatusOK) s
      else
        (let s1 = called Call_MkdirTemp s in
         case os_MkdirTemp e None ''coverage'' (fsys s1) of
           Inl m \<Rightarrow>
             respond (WriteHeader StatusInternalServerError)
               (Errorf (''error creating temporary directory: '' @ m) s1)
         | Inr (tmpDir, fs1) \<Rightarrow>
             (let s2 = dump_profile e p tmpDir (s1\<lparr>fsys := fs1\<rparr>)
              in s2\<lparr>fsys := os_RemoveAll tmpDir (fsys s2)\<rparr>)))"

subsection \<open>CovPercentHandler\<close>

text \<open>
  After each of the first three steps the handler logs and writes status 500 when the
  step failed, and goes on with the next step in either case; \<open>tmpDir\<close> and \<open>mergedDir\<close>
  are then the empty path.
\<close>

definition fail_if :: "error option \<Rightarrow> hstate \<Rightarrow> hstate" where
  "fail_if err s =
     (case err of
        None \<Rightarrow> s
      | Some x \<Rightarrow> Errorf (error_message x) (respond (WriteHeader StatusInternalServerError) s))"

definition percent_tail :: "'f float_ops \<Rightarrow> env \<Rightarrow> nat option \<Rightarrow> hstate \<Rightarrow> hstate" where
  "percent_tail ops e mergedDir s =
     (let s1 = called Call_covdata_percent s in
      case covdata_percent e (fsys s1) mergedDir of
        Inl m \<Rightarrow>
          respond (WriteHeader StatusInternalServerError)
            (Errorf (''error running merging coverage data: '' @ m @ [CHR 0x0A]) s1)
      | Inr output \<Rightarrow>
          (let s2 = called Call_calculateTotalCoverage s1 in
           case calculateTotalCoverage ops output of
             Inl err \<Rightarrow>
               respond (WriteHeader StatusInternalServerError)
                 (Errorf (''error calculating total coverage data: '' @ error_message err
                            @ [CHR 0x0A]) s2)
           | Inr totalCoverage \<Rightarrow>
               respond (Write_body (''Total Average Coverage: '' @ format2 ops totalCoverage
                                      @ [CHR ''%'', CHR 0x0A]))
                 (respond (Header_Set ''Content-Type'' ''text/plain'') s2)))"

definition CovPercentHandler ::
  "'f float_ops \<Rightarrow> env \<Rightarrow> proc \<Rightarrow> request \<Rightarrow> exchange list \<Rightarrow> hstate \<Rightarrow> hstate option" where
  "CovPercentHandler ops e p r xs s =
     (let s0 = called Call_writeBinCoverage s;
          ((tmpDir, err1), fs1) = writeBinCoverage e p (fsys s0);
          s1 = called Call_requestOtherProfile (fail_if err1 (s0\<lparr>fsys := fs1\<rparr>))
      in case requestOtherProfile e p (fsys s1) tmpDir (getURL r False) xs of
           Awaiting st \<Rightarrow> None
         | Returned err2 st \<Rightarrow>
             (let s2 = called Call_mergeProfiles
                         (fail_if err2 (s1\<lparr>fsys := disk st, sent := requests st\<rparr>));
                  ((mergedDir, err3), fs3) = mergeProfiles e tmpDir (fsys s2);
                  s3 = fail_if err3 (s2\<lparr>fsys := fs3\<rparr>)
              in Some (percent_tail ops e mergedDir s3)))"

section \<open>Sequences of exchanges\<close>

text \<open>
  The responses among a list of exchanges, in order, the identity a response carries, and
  the responses that are the first of their identity, given the identities seen before.
  A response can be stored by the collector when its body can be read, the identity has no
  path separator, the binary has coverage meta-data, the file name is a plain name, and
  writing the body does not fail.
\<close>

definition responder :: "response \<Rightarrow> string" where
  "responder resp = Header_Get (header resp) hostnameHeader"

fun answers :: "exchange list \<Rightarrow> response list" where
  "answers [] = []"
| "answers (x # xs) =
     (case reply x of
        Inl m \<Rightarrow> answers xs
      | Inr resp \<Rightarrow> resp # answers xs)"

fun first_answers :: "string set \<Rightarrow> response list \<Rightarrow> response list" where
  "first_answers seen [] = []"
| "first_answers seen (resp # rs) =
     (if responder resp \<in> seen then first_answers seen rs
      else resp # first_answers (insert (responder resp) seen) rs)"

definition answered :: "exchange \<Rightarrow> bool" where
  "answered x = (case reply x of Inl m \<Rightarrow> False | Inr resp \<Rightarrow> True)"

definition in_budget :: "exchange \<Rightarrow> bool" where
  "in_budget x = (since x \<le> allReqTimeout)"

definition storable :: "env \<Rightarrow> response \<Rightarrow> bool" where
  "storable e resp =
     (case body resp of
        Inl m \<Rightarrow> False
      | Inr b \<Rightarrow>
          CHR ''/'' \<notin> set (responder resp) \<and>
          covermode e \<noteq> NoCover \<and>
          (case join_target (Header_Get (header resp) filenameHeader) of
             Inside n \<Rightarrow> True
           | _ \<Rightarrow> False) \<and>
          file_write_err e b = None)"

text \<open>
  The directory that the collector leaves for a response it could store: named after the
  responder, holding the meta-data file of the collecting process and the body under the
  file name the response gave.
\<close>

definition artifact :: "env \<Rightarrow> nat option \<Rightarrow> response \<Rightarrow> dir" where
  "artifact e parentDir resp =
     \<lparr>parent = parentDir,
      pattern = responder resp,
      entries =
        (case (join_target (Header_Get (header resp) filenameHeader), body resp) of
           (Inside n, Inr b) \<Rightarrow> AList.update n b [(meta_name e, meta_data e)]
         | _ \<Rightarrow> [(meta_name e, meta_data e)]),
      live = True\<rparr>"

section \<open>Fixtures\<close>

text \<open>
  Concrete inputs on which the theorems below are instantiated: a binary built with
  \<open>-covermode=atomic\<close> on a system where no library call fails, a pod with a given name
  and configured count, a peer's answer (clock reading, \<open>x-hostname\<close>, \<open>x-filename\<close>, body),
  a refused connection, and a file system that holds one scratch directory.
\<close>

definition cover_env :: env where
  "cover_env = \<lparr>covermode = CoverAtomic, meta_name = ''covmeta.1'', meta_data = ''M'',
     counters_name = ''covcounters.1'', counters_data = ''C'', temp_dir_err = None,
     new_request_err = (\<lambda>_. None), create_outside_err = (\<lambda>_. None),
     file_write_err = (\<lambda>_. None), read_dir_err = None, read_file_err = (\<lambda>_. None),
     covdata_merge = (\<lambda>_ _ _. None), covdata_percent = (\<lambda>_ _. Inr [])\<rparr>"

definition pod :: "string \<Rightarrow> int \<Rightarrow> proc" where
  "pod h n = \<lparr>hostname = h, numberPods = n, covLogger = DefaultLogger\<rparr>"

definition answer :: "int \<Rightarrow> string \<Rightarrow> string \<Rightarrow> bytes \<Rightarrow> exchange" where
  "answer t h f b = \<lparr>since = t, reply = Inr \<lparr>status = 200,
      header = [hostnameHeader \<mapsto> h, filenameHeader \<mapsto> f], body = Inr b\<rparr>\<rparr>"

definition refused :: "int \<Rightarrow> exchange" where
  "refused t = \<lparr>since = t, reply = Inl ''connection refused''\<rparr>"

definition scratch0 :: "dir list" where
  "scratch0 = [\<lparr>parent = None, pattern = ''coverage'', entries = [], live = True\<rparr>]"

definition peer_b_twice_collect :: cstate where
  "peer_b_twice_collect = \<lparr>hosts = {''pod-b'', ''pod-a''},
     disk = [\<lparr>parent = None, pattern = ''coverage'', entries = [], live = True\<rparr>,
             \<lparr>parent = Some 0, pattern = ''pod-b'',
               entries = [(''covmeta.1'', ''M''), (''covcounters.9'', ''xyz'')], live = True\<rparr>],
     requests = 1\<rparr>"

definition peer_b_once_reset :: cstate where
  "peer_b_once_reset = \<lparr>hosts = {''pod-b'', ''pod-a''}, disk = scratch0, requests = 1\<rparr>"

definition one_peer_only :: "exchange list" where
  "one_peer_only =
     map (\<lambda>t. answer (t * second) ''pod-b'' ''covcounters.9'' ''xyz'') [0, 3, 6, 9, 12, 15, 18]"



definition self_scratch :: "dir list" where
  "self_scratch =
     [\<lparr>parent = None, pattern = ''coverage'', entries = [], live = True\<rparr>,
      \<lparr>parent = Some 0, pattern = ''pod-a'',
        entries = [(''covmeta.1'', ''M''), (''covcounters.1'', ''C'')], live = True\<rparr>]"

definition own_request :: "proc \<Rightarrow> request" where
  "own_request p = \<lparr>req_header = [hostnameHeader \<mapsto> hostname p], host = ''svc:8080'', tls = False\<rparr>"

definition bare_request :: request where
  "bare_request = \<lparr>req_header = Map.empty, host = ''svc:8080'', tls = False\<rparr>"

text \<open>
  The answers a collector on \<open>pod-a\<close> with four pods configured gets when its first
  request is routed back to itself and the later ones reach \<open>pod-b\<close>, the last of them
  after 18 seconds.
\<close>

definition routed_back_then_late :: "exchange list" where
  "routed_back_then_late =
     [\<lparr>since = 0,
       reply = Inr (response_of
                 (w (CovBinProfileHandler cover_env (pod ''pod-a'' 4)
                       (own_request (pod ''pod-a'' 4)) (new_hstate []))))\<rparr>,
      answer (3 * second) ''pod-b'' ''covcounters.9'' ''xyz'',
      answer (18 * second) ''pod-b'' ''covcounters.9'' ''xyz'']"

text \<open>
  A stand-in for \<open>float64\<close> on which the theorems about the aggregator are instantiated:
  numbers with at most two decimals, counted in hundredths, with the quotient rounded
  down; and the report of the specification's example.
\<close>

definition digit_of :: "char \<Rightarrow> nat option" where
  "digit_of c =
     map_of [(CHR ''0'', 0), (CHR ''1'', 1), (CHR ''2'', 2), (CHR ''3'', 3), (CHR ''4'', 4),
             (CHR ''5'', 5), (CHR ''6'', 6), (CHR ''7'', 7), (CHR ''8'', 8), (CHR ''9'', 9)] c"

fun digits_value :: "nat \<Rightarrow> string \<Rightarrow> nat option" where
  "digits_value acc [] = Some acc"
| "digits_value acc (c # cs) =
     (case digit_of c of None \<Rightarrow> None | Some d \<Rightarrow> digits_value (10 * acc + d) cs)"

definition parse_hundredths :: "string \<Rightarrow> string + nat" where
  "parse_hundredths s =
     (case split_on (CHR ''.'') s of
        [ip] \<Rightarrow>
          (case digits_value 0 ip of
             Some n \<Rightarrow> if ip = [] then Inl ''invalid syntax'' else Inr (100 * n)
           | None \<Rightarrow> Inl ''invalid syntax'')
      | [ip, fp] \<Rightarrow>
          (case (digits_value 0 ip, digits_value 0 fp) of
             (Some n, Some m) \<Rightarrow>
               if ip = [] \<or> fp = [] \<or> 2 < length fp then Inl ''invalid syntax''
               else Inr (100 * n + (if length fp = 1 then 10 * m else m))
           | _ \<Rightarrow> Inl ''invalid syntax'')
      | _ \<Rightarrow> Inl ''invalid syntax'')"

definition format_hundredths :: "nat \<Rightarrow> string" where
  "format_hundredths h = decimal (h div 100) @ ''.'' @ [digit (h div 10 mod 10), digit (h mod 10)]"

definition fixed_ops :: "nat float_ops" where
  "fixed_ops = \<lparr>ParseFloat = parse_hundredths, fzero = 0, fadd = (+),
                  fdiv = (\<lambda>a b. a * 100 div b), of_count = (\<lambda>n. 100 * nat n),
                  format2 = format_hundredths\<rparr>"

definition example_report :: string where
  "example_report =
     ''pkg/a'' @ [CHR 0x09] @ ''pkg/b'' @ [CHR 0x09] @ ''coverage: 50.0% of statements'' @ [CHR 0x0A] @
     ''pkg/c'' @ [CHR 0x09] @ ''coverage: 100.0% of statements'' @ [CHR 0x0A]"

definition example_line1 :: string where
  "example_line1 = ''pkg/a'' @ [CHR 0x09] @ ''pkg/b'' @ [CHR 0x09] @ ''coverage: 50.0% of statements''"

definition example_line2 :: string where
  "example_line2 = ''pkg/c'' @ [CHR 0x09] @ ''coverage: 100.0% of statements''"

definition long_line :: string where
  "long_line = replicate 65536 (CHR ''a'')"

definition bad_report :: string where
  "bad_report = ''pkg/a'' @ [CHR 0x09] @ ''coverage: [no statements]''"

text \<open>
  An environment in which \<open>go tool covdata percent\<close> prints the example report for a
  merged directory and fails without one, and the same for a binary built without
  \<open>-cover\<close>.
\<close>

definition report_env :: env where
  "report_env =
     cover_env\<lparr>covdata_percent :=
                 (\<lambda>fs d. case d of None \<Rightarrow> Inl ''exit status 1'' | Some i \<Rightarrow> Inr example_report)\<rparr>"

definition uncovered_env :: env where
  "uncovered_env = report_env\<lparr>covermode := NoCover\<rparr>"

section \<open>Runs of the peer loops\<close>

text \<open>
  A run that is still looping after a list of exchanges goes on with the next ones from
  the state it has reached, and the loop condition holds in that state.
\<close>

lemma requestLoop_append:
  "requestLoop e p d url st xs = Awaiting st' \<Longrightarrow>
   requestLoop e p d url st (xs @ ys) = requestLoop e p d url st' ys"
proof (induction xs arbitrary: st)
  case Nil
  then show ?case by (cases ys) (auto split: if_splits)
next
  case (Cons x xs)
  then show ?case
    by (auto simp: Let_def split: if_splits option.splits sum.splits prod.splits)
qed

lemma resetLoop_append:
  "resetLoop e p url st xs = Awaiting st' \<Longrightarrow>
   resetLoop e p url st (xs @ ys) = resetLoop e p url st' ys"
proof (induction xs arbitrary: st)
  case Nil
  then show ?case by (cases ys) (auto split: if_splits)
next
  case (Cons x xs)
  then show ?case
    by (auto simp: Let_def split: if_splits option.splits sum.splits)
qed

lemma requestLoop_Awaiting_running:
  "requestLoop e p d url st xs = Awaiting st' \<Longrightarrow> int (card (hosts st')) < numberPods p"
proof (induction xs arbitrary: st)
  case Nil
  then show ?case by (auto split: if_splits)
next
  case (Cons x xs)
  then show ?case
    by (auto simp: Let_def split: if_splits option.splits sum.splits prod.splits)
qed

lemma resetLoop_Awaiting_running:
  "resetLoop e p url st xs = Awaiting st' \<Longrightarrow> int (card (hosts st')) < numberPods p"
proof (induction xs arbitrary: st)
  case Nil
  then show ?case by (auto split: if_splits)
next
  case (Cons x xs)
  then show ?case
    by (auto simp: Let_def split: if_splits option.splits sum.splits)
qed

text \<open>The definitions by which the fixtures and the loops are evaluated.\<close>

lemmas fixture_defs = cover_env_def pod_def answer_def refused_def scratch0_def

lemmas loop_defs = requestOtherProfile_def resetOtherProfile_def Header_Get_def
  hostnameHeader_def filenameHeader_def allReqTimeout_def second_def Let_def

lemmas disk_defs = write_fn_def os_MkdirTemp_def new_dir_def coverage_WriteMetaDir_def
  coverage_WriteCountersDir_def os_Create_def create_untracked_def file_Write_def
  put_file_def is_dir_def join_target_def split_on_def

lemmas http_defs = respond_def WriteHeader_def Write_body_def Header_Set_def new_rw_def
  new_hstate_def response_of_def StatusOK_def StatusInternalServerError_def called_def Errorf_def

text \<open>
  Claim C10. \<open>SetNumberPods\<close> stores any integer as it is given. Whenever the configured
  count is at most 1 (the default 1, zero, a negative number), the collector and the
  broadcaster return \<open>nil\<close> at once, whatever the peers would answer: the set of hosts is
  the local identity alone, no request has been issued and the file system is unchanged.
\<close>

theorem single_pod_returns_at_once:
  "numberPods (SetNumberPods n p) = n \<and>
   hostname (SetNumberPods n p) = hostname p \<and>
   (n \<le> 1 \<longrightarrow>
      requestOtherProfile e (SetNumberPods n p) fs parentDir url xs =
        Returned None \<lparr>hosts = {hostname p}, disk = fs, requests = 0\<rparr> \<and>
      resetOtherProfile e (SetNumberPods n p) fs url xs =
        Returned None \<lparr>hosts = {hostname p}, disk = fs, requests = 0\<rparr>)"
  by (cases xs) (simp_all add: SetNumberPods_def requestOtherProfile_def resetOtherProfile_def)

theorem single_pod_returns_at_once_witness:
  "numberPods (SetNumberPods 7 (pod ''pod-a'' 5)) = 7 \<and>
   (- 3 :: int) \<le> 1 \<and>
   numberPods (SetNumberPods (- 3) (pod ''pod-a'' 5)) = - 3 \<and>
   requestOtherProfile cover_env (SetNumberPods (- 3) (pod ''pod-a'' 5)) scratch0 (Some 0) ''u''
       [answer 0 ''pod-b'' ''covcounters.9'' ''xyz''] =
     Returned None \<lparr>hosts = {''pod-a''}, disk = scratch0, requests = 0\<rparr> \<and>
   resetOtherProfile cover_env (SetNumberPods (- 3) (pod ''pod-a'' 5)) scratch0 ''u''
       [answer 0 ''pod-b'' ''covcounters.9'' ''xyz''] =
     Returned None \<lparr>hosts = {''pod-a''}, disk = scratch0, requests = 0\<rparr>"
  using single_pod_returns_at_once [of "- 3" "pod ''pod-a'' 5" cover_env scratch0 "Some 0" "''u''"
      "[answer 0 ''pod-b'' ''covcounters.9'' ''xyz'']"]
    single_pod_returns_at_once [of 7 "pod ''pod-a'' 5"]
  by (simp add: pod_def)

text \<open>
  Claim C2. When the loop is still running after some exchanges and the next response
  carries an identity that is already in \<open>hosts\<close>, the collector and the broadcaster go on
  with the same set of hosts and the same file system: only the count of issued requests
  grows. The identity is not inserted again, the number of distinct hosts that the loop
  condition reads is unchanged, and nothing is written to disk.
\<close>

theorem duplicate_identity_is_ignored:
  assumes "reply x = Inr resp"
    and "since x \<le> allReqTimeout"
    and "new_request_err e url = None"
  shows "(requestOtherProfile e p fs parentDir url pre = Awaiting st \<and>
          Header_Get (header resp) hostnameHeader \<in> hosts st \<longrightarrow>
          requestOtherProfile e p fs parentDir url (pre @ [x]) =
            Awaiting (st\<lparr>requests := Suc (requests st)\<rparr>) \<and>
          requestOtherProfile e p fs parentDir url (pre @ x # post) =
            requestLoop e p parentDir url (st\<lparr>requests := Suc (requests st)\<rparr>) post) \<and>
         (resetOtherProfile e p fs url pre = Awaiting st \<and>
          Header_Get (header resp) hostnameHeader \<in> hosts st \<longrightarrow>
          resetOtherProfile e p fs url (pre @ [x]) =
            Awaiting (st\<lparr>requests := Suc (requests st)\<rparr>) \<and>
          resetOtherProfile e p fs url (pre @ x # post) =
            resetLoop e p url (st\<lparr>requests := Suc (requests st)\<rparr>) post)"
proof (intro conjI impI)
  assume a: "requestOtherProfile e p fs parentDir url pre = Awaiting st \<and>
          Header_Get (header resp) hostnameHeader \<in> hosts st"
  then have run: "int (card (hosts st)) < numberPods p"
    using requestLoop_Awaiting_running by (auto simp: requestOtherProfile_def)
  from a have step: "requestLoop e p parentDir url st (x # ys) =
      requestLoop e p parentDir url (st\<lparr>requests := Suc (requests st)\<rparr>) ys" for ys
    using assms run by (simp add: Let_def)
  from a show "requestOtherProfile e p fs parentDir url (pre @ [x]) =
            Awaiting (st\<lparr>requests := Suc (requests st)\<rparr>)"
    using requestLoop_append [of e p parentDir url _ pre st "[x]"] step [of "[]"] run
    by (simp add: requestOtherProfile_def)
  from a show "requestOtherProfile e p fs parentDir url (pre @ x # post) =
            requestLoop e p parentDir url (st\<lparr>requests := Suc (requests st)\<rparr>) post"
    using requestLoop_append [of e p parentDir url _ pre st "x # post"] step [of post]
    by (simp add: requestOtherProfile_def)
next
  assume a: "resetOtherProfile e p fs url pre = Awaiting st \<and>
          Header_Get (header resp) hostnameHeader \<in> hosts st"
  then have run: "int (card (hosts st)) < numberPods p"
    using resetLoop_Awaiting_running by (auto simp: resetOtherProfile_def)
  from a have step: "resetLoop e p url st (x # ys) =
      resetLoop e p url (st\<lparr>requests := Suc (requests st)\<rparr>) ys" for ys
    using assms run by (simp add: Let_def)
  from a show "resetOtherProfile e p fs url (pre @ [x]) =
            Awaiting (st\<lparr>requests := Suc (requests st)\<rparr>)"
    using resetLoop_append [of e p url _ pre st "[x]"] step [of "[]"] run
    by (simp add: resetOtherProfile_def)
  from a show "resetOtherProfile e p fs url (pre @ x # post) =
            resetLoop e p url (st\<lparr>requests := Suc (requests st)\<rparr>) post"
    using resetLoop_append [of e p url _ pre st "x # post"] step [of post]
    by (simp add: resetOtherProfile_def)
qed


theorem duplicate_identity_is_ignored_witness:
  "reply (answer (3 * second) ''pod-b'' ''covcounters.9'' ''xyz'') =
     Inr \<lparr>status = 200,
          header = [hostnameHeader \<mapsto> ''pod-b'', filenameHeader \<mapsto> ''covcounters.9''],
          body = Inr ''xyz''\<rparr> \<and>
   since (answer (3 * second) ''pod-b'' ''covcounters.9'' ''xyz'') \<le> allReqTimeout \<and>
   new_request_err cover_env ''u'' = None \<and>
   requestOtherProfile cover_env (pod ''pod-a'' 3) scratch0 (Some 0) ''u''
       [answer 0 ''pod-b'' ''covcounters.9'' ''xyz''] = Awaiting peer_b_twice_collect \<and>
   ''pod-b'' \<in> hosts peer_b_twice_collect \<and>
   requestOtherProfile cover_env (pod ''pod-a'' 3) scratch0 (Some 0) ''u''
       ([answer 0 ''pod-b'' ''covcounters.9'' ''xyz'']
          @ [answer (3 * second) ''pod-b'' ''covcounters.9'' ''xyz'']) =
     Awaiting (peer_b_twice_collect\<lparr>requests := 2\<rparr>) \<and>
   resetOtherProfile cover_env (pod ''pod-a'' 3) scratch0 ''u''
       [answer 0 ''pod-b'' ''covcounters.9'' ''xyz''] = Awaiting peer_b_once_reset \<and>
   ''pod-b'' \<in> hosts peer_b_once_reset \<and>
   resetOtherProfile cover_env (pod ''pod-a'' 3) scratch0 ''u''
       ([answer 0 ''pod-b'' ''covcounters.9'' ''xyz'']
          @ [answer (3 * second) ''pod-b'' ''covcounters.9'' ''xyz'']) =
     Awaiting (peer_b_once_reset\<lparr>requests := 2\<rparr>)"
proof -
  let ?x = "answer (3 * second) ''pod-b'' ''covcounters.9'' ''xyz''"
  let ?resp = "\<lparr>status = 200,
          header = [hostnameHeader \<mapsto> ''pod-b'', filenameHeader \<mapsto> ''covcounters.9''],
          body = Inr ''xyz''\<rparr>"
  have h1: "reply ?x = Inr ?resp"
    and h2: "since ?x \<le> allReqTimeout"
    and h3: "new_request_err cover_env ''u'' = None"
    by (simp_all add: fixture_defs loop_defs)
  have c: "requestOtherProfile cover_env (pod ''pod-a'' 3) scratch0 (Some 0) ''u''
       [answer 0 ''pod-b'' ''covcounters.9'' ''xyz''] = Awaiting peer_b_twice_collect"
    by (simp add: fixture_defs loop_defs disk_defs peer_b_twice_collect_def)
  have r: "resetOtherProfile cover_env (pod ''pod-a'' 3) scratch0 ''u''
       [answer 0 ''pod-b'' ''covcounters.9'' ''xyz''] = Awaiting peer_b_once_reset"
    by (simp add: fixture_defs loop_defs peer_b_once_reset_def)
  have m: "Header_Get (header ?resp) hostnameHeader = ''pod-b''"
    by (simp add: loop_defs)
  show ?thesis
    using duplicate_identity_is_ignored [OF h1 h2 h3, of "pod ''pod-a'' 3" scratch0 "Some 0"
        "[answer 0 ''pod-b'' ''covcounters.9'' ''xyz'']" peer_b_twice_collect "[]"]
      duplicate_identity_is_ignored [OF h1 h2 h3, of "pod ''pod-a'' 3" scratch0 "Some 0"
        "[answer 0 ''pod-b'' ''covcounters.9'' ''xyz'']" peer_b_once_reset "[]"]
      h1 h2 h3 c r m
    by (simp add: peer_b_twice_collect_def peer_b_once_reset_def)
qed

text \<open>
  Claim C4. When the loop is still running after some exchanges (peers may already have
  been collected) and \<open>http.DefaultClient.Do\<close> fails on the next request, for a refused
  connection as for a request that ran into its own timeout, the collector and the
  broadcaster return at once with an error that wraps the cause. What was collected stays
  as it is, exactly one more request has been issued, and the exchanges that would have
  followed are never used: the request is not repeated and the peer is not skipped.
\<close>

theorem transport_failure_aborts:
  assumes "reply x = Inl m"
    and "since x \<le> allReqTimeout"
    and "new_request_err e url = None"
  shows "(requestOtherProfile e p fs parentDir url pre = Awaiting st \<longrightarrow>
          requestOtherProfile e p fs parentDir url (pre @ x # post) =
            Returned (Some (FailedToPerformRequest m)) (st\<lparr>requests := Suc (requests st)\<rparr>)) \<and>
         (resetOtherProfile e p fs url pre = Awaiting st \<longrightarrow>
          resetOtherProfile e p fs url (pre @ x # post) =
            Returned (Some (FailedToPerformRequest m)) (st\<lparr>requests := Suc (requests st)\<rparr>))"
proof (intro conjI impI)
  assume a: "requestOtherProfile e p fs parentDir url pre = Awaiting st"
  then have run: "int (card (hosts st)) < numberPods p"
    using requestLoop_Awaiting_running by (auto simp: requestOtherProfile_def)
  have "requestLoop e p parentDir url st (x # post) =
      Returned (Some (FailedToPerformRequest m)) (st\<lparr>requests := Suc (requests st)\<rparr>)"
    using assms run by (simp add: Let_def)
  with a show "requestOtherProfile e p fs parentDir url (pre @ x # post) =
            Returned (Some (FailedToPerformRequest m)) (st\<lparr>requests := Suc (requests st)\<rparr>)"
    using requestLoop_append [of e p parentDir url _ pre st "x # post"]
    by (simp add: requestOtherProfile_def)
next
  assume a: "resetOtherProfile e p fs url pre = Awaiting st"
  then have run: "int (card (hosts st)) < numberPods p"
    using resetLoop_Awaiting_running by (auto simp: resetOtherProfile_def)
  have "resetLoop e p url st (x # post) =
      Returned (Some (FailedToPerformRequest m)) (st\<lparr>requests := Suc (requests st)\<rparr>)"
    using assms run by (simp add: Let_def)
  with a show "resetOtherProfile e p fs url (pre @ x # post) =
            Returned (Some (FailedToPerformRequest m)) (st\<lparr>requests := Suc (requests st)\<rparr>)"
    using resetLoop_append [of e p url _ pre st "x # post"]
    by (simp add: resetOtherProfile_def)
qed

theorem transport_failure_aborts_witness:
  "reply (refused (3 * second)) = Inl ''connection refused'' \<and>
   since (refused (3 * second)) \<le> allReqTimeout \<and>
   new_request_err cover_env ''u'' = None \<and>
   requestOtherProfile cover_env (pod ''pod-a'' 3) scratch0 (Some 0) ''u''
       [answer 0 ''pod-b'' ''covcounters.9'' ''xyz''] = Awaiting peer_b_twice_collect \<and>
   requestOtherProfile cover_env (pod ''pod-a'' 3) scratch0 (Some 0) ''u''
       ([answer 0 ''pod-b'' ''covcounters.9'' ''xyz''] @ refused (3 * second)
          # [answer (4 * second) ''pod-c'' ''covcounters.7'' ''uvw'']) =
     Returned (Some (FailedToPerformRequest ''connection refused''))
       (peer_b_twice_collect\<lparr>requests := 2\<rparr>) \<and>
   resetOtherProfile cover_env (pod ''pod-a'' 3) scratch0 ''u''
       [answer 0 ''pod-b'' ''covcounters.9'' ''xyz''] = Awaiting peer_b_once_reset \<and>
   resetOtherProfile cover_env (pod ''pod-a'' 3) scratch0 ''u''
       ([answer 0 ''pod-b'' ''covcounters.9'' ''xyz''] @ refused (3 * second)
          # [answer (4 * second) ''pod-c'' ''covcounters.7'' ''uvw'']) =
     Returned (Some (FailedToPerformRequest ''connection refused''))
       (peer_b_once_reset\<lparr>requests := 2\<rparr>)"
proof -
  have h1: "reply (refused (3 * second)) = Inl ''connection refused''"
    and h2: "since (refused (3 * second)) \<le> allReqTimeout"
    and h3: "new_request_err cover_env ''u'' = None"
    by (simp_all add: fixture_defs loop_defs)
  have c: "requestOtherProfile cover_env (pod ''pod-a'' 3) scratch0 (Some 0) ''u''
       [answer 0 ''pod-b'' ''covcounters.9'' ''xyz''] = Awaiting peer_b_twice_collect"
    by (simp add: fixture_defs loop_defs disk_defs peer_b_twice_collect_def)
  have r: "resetOtherProfile cover_env (pod ''pod-a'' 3) scratch0 ''u''
       [answer 0 ''pod-b'' ''covcounters.9'' ''xyz''] = Awaiting peer_b_once_reset"
    by (simp add: fixture_defs loop_defs peer_b_once_reset_def)
  show ?thesis
    using transport_failure_aborts [OF h1 h2 h3, of "pod ''pod-a'' 3" scratch0 "Some 0"
        "[answer 0 ''pod-b'' ''covcounters.9'' ''xyz'']" peer_b_twice_collect
        "[answer (4 * second) ''pod-c'' ''covcounters.7'' ''uvw'']"]
      transport_failure_aborts [OF h1 h2 h3, of "pod ''pod-a'' 3" scratch0 "Some 0"
        "[answer 0 ''pod-b'' ''covcounters.9'' ''xyz'']" peer_b_once_reset
        "[answer (4 * second) ''pod-c'' ''covcounters.7'' ''uvw'']"]
      h1 h2 h3 c r
    by (simp add: peer_b_twice_collect_def peer_b_once_reset_def)
qed

text \<open>
  A response that can be stored adds one directory to the file system. The first clock
  reading beyond the budget exists when some reading is beyond it. While fewer than
  \<open>numberPods\<close> identities can be seen, the loops run until the clock passes the budget.
\<close>

lemma is_dir_append: "is_dir fs d \<Longrightarrow> is_dir (fs @ ds) d"
  by (auto simp: is_dir_def nth_append split: option.splits)

lemma write_fn_storable:
  assumes "is_dir fs parentDir" and "body resp = Inr b" and "storable e resp"
  shows "write_fn e b fs parentDir (Header_Get (header resp) hostnameHeader)
           (Header_Get (header resp) filenameHeader) =
         (None, fs @ [artifact e parentDir resp])"
  using assms
  by (auto simp: storable_def write_fn_def os_MkdirTemp_def new_dir_def responder_def
      coverage_WriteMetaDir_def os_Create_def file_Write_def put_file_def is_dir_def
      artifact_def nth_append
      split: option.splits target.splits sum.splits)

lemma first_late:
  assumes "\<exists>x \<in> set xs. \<not> in_budget x"
  shows "length (takeWhile in_budget xs) < length xs"
    and "\<not> in_budget (xs ! length (takeWhile in_budget xs))"
proof -
  have "takeWhile in_budget xs \<noteq> xs"
    using assms by (auto simp: takeWhile_eq_all_conv)
  then show "length (takeWhile in_budget xs) < length xs"
    using length_takeWhile_le [of in_budget xs]
    by (metis le_neq_implies_less takeWhile_eq_take take_all_iff order_refl)
  then show "\<not> in_budget (xs ! length (takeWhile in_budget xs))"
    by (rule nth_length_takeWhile)
qed

lemma card_hosts_running:
  assumes "finite H" and "int (card (H \<union> set rs)) < n"
  shows "int (card H) < n"
proof -
  have "card H \<le> card (H \<union> set rs)"
    using assms(1) by (intro card_mono) auto
  then show ?thesis using assms(2) by linarith
qed

lemma resetLoop_times_out:
  assumes "list_all answered xs"
    and "finite (hosts st)"
    and "int (card (hosts st \<union> set (map responder (answers xs)))) < numberPods p"
    and "new_request_err e url = None"
    and "\<exists>x \<in> set xs. \<not> in_budget x"
  shows "\<exists>st'. resetLoop e p url st xs = Returned (Some RequestsTimeoutExceeded) st' \<and>
           requests st' = requests st + length (takeWhile in_budget xs)"
  using assms
proof (induction xs arbitrary: st)
  case Nil
  then show ?case by simp
next
  case (Cons x xs)
  have run: "int (card (hosts st)) < numberPods p"
    using card_hosts_running [OF Cons.prems(2) Cons.prems(3)] .
  show ?case
  proof (cases "in_budget x")
    case False
    then have "allReqTimeout < since x"
      by (simp add: in_budget_def)
    with False show ?thesis using run by simp
  next
    case True
    then have tb: "\<not> allReqTimeout < since x"
      by (simp add: in_budget_def)
    from Cons.prems(1) obtain resp where resp: "reply x = Inr resp"
      by (auto simp: answered_def split: sum.splits)
    let ?h = "Header_Get (header resp) hostnameHeader"
    let ?st1 = "st\<lparr>requests := Suc (requests st)\<rparr>"
    have rs: "map responder (answers (x # xs)) = ?h # map responder (answers xs)"
      using resp by (simp add: responder_def)
    have late: "\<exists>y \<in> set xs. \<not> in_budget y"
      using Cons.prems(5) True by auto
    have rest: "list_all answered xs"
      using Cons.prems(1) by simp
    show ?thesis
    proof (cases "?h \<in> hosts st")
      case seen: True
      have "hosts ?st1 \<union> set (map responder (answers xs)) =
            hosts st \<union> set (map responder (answers (x # xs)))"
        using seen rs by auto
      then have "\<exists>st'. resetLoop e p url ?st1 xs = Returned (Some RequestsTimeoutExceeded) st' \<and>
           requests st' = requests ?st1 + length (takeWhile in_budget xs)"
        using Cons.prems by (intro Cons.IH rest late) auto
      then show ?thesis
        using run True tb resp seen Cons.prems(4) by (auto simp: Let_def)
    next
      case new: False
      let ?st2 = "?st1\<lparr>hosts := insert ?h (hosts ?st1)\<rparr>"
      have "hosts ?st2 \<union> set (map responder (answers xs)) =
            hosts st \<union> set (map responder (answers (x # xs)))"
        using rs by auto
      then have "\<exists>st'. resetLoop e p url ?st2 xs = Returned (Some RequestsTimeoutExceeded) st' \<and>
           requests st' = requests ?st2 + length (takeWhile in_budget xs)"
        using Cons.prems by (intro Cons.IH rest late) auto
      then show ?thesis
        using run True tb resp new Cons.prems(4) by (auto simp: Let_def)
    qed
  qed
qed

lemma requestLoop_times_out:
  assumes "list_all answered xs"
    and "finite (hosts st)"
    and "int (card (hosts st \<union> set (map responder (answers xs)))) < numberPods p"
    and "new_request_err e url = None"
    and "\<exists>x \<in> set xs. \<not> in_budget x"
    and "is_dir (disk st) parentDir"
    and "list_all (storable e) (first_answers (hosts st) (answers xs))"
  shows "\<exists>st'. requestLoop e p parentDir url st xs = Returned (Some RequestsTimeoutExceeded) st' \<and>
           requests st' = requests st + length (takeWhile in_budget xs)"
  using assms
proof (induction xs arbitrary: st)
  case Nil
  then show ?case by simp
next
  case (Cons x xs)
  have run: "int (card (hosts st)) < numberPods p"
    using card_hosts_running [OF Cons.prems(2) Cons.prems(3)] .
  show ?case
  proof (cases "in_budget x")
    case False
    then have "allReqTimeout < since x"
      by (simp add: in_budget_def)
    with False show ?thesis using run by simp
  next
    case True
    then have tb: "\<not> allReqTimeout < since x"
      by (simp add: in_budget_def)
    from Cons.prems(1) obtain resp where resp: "reply x = Inr resp"
      by (auto simp: answered_def split: sum.splits)
    let ?h = "Header_Get (header resp) hostnameHeader"
    let ?f = "Header_Get (header resp) filenameHeader"
    let ?st1 = "st\<lparr>requests := Suc (requests st)\<rparr>"
    have rs: "map responder (answers (x # xs)) = ?h # map responder (answers xs)"
      using resp by (simp add: responder_def)
    have late: "\<exists>y \<in> set xs. \<not> in_budget y"
      using Cons.prems(5) True by auto
    have rest: "list_all answered xs"
      using Cons.prems(1) by simp
    show ?thesis
    proof (cases "?h \<in> hosts st")
      case seen: True
      have "hosts ?st1 \<union> set (map responder (answers xs)) =
            hosts st \<union> set (map responder (answers (x # xs)))"
        using seen rs by auto
      moreover have "list_all (storable e) (first_answers (hosts ?st1) (answers xs))"
        using Cons.prems(7) resp seen by (simp add: responder_def)
      ultimately have "\<exists>st'. requestLoop e p parentDir url ?st1 xs =
             Returned (Some RequestsTimeoutExceeded) st' \<and>
           requests st' = requests ?st1 + length (takeWhile in_budget xs)"
        using Cons.prems(2-6) by (intro Cons.IH rest late) auto
      then show ?thesis
        using run True tb resp seen Cons.prems(4) by (auto simp: Let_def)
    next
      case new: False
      let ?st3 = "st\<lparr>requests := Suc (requests st), hosts := insert ?h (hosts st),
                     disk := disk st @ [artifact e parentDir resp]\<rparr>"
      have ok: "storable e resp"
        and ok': "list_all (storable e) (first_answers (hosts ?st3) (answers xs))"
        using Cons.prems(7) resp new by (simp_all add: responder_def)
      then obtain b where b: "body resp = Inr b"
        by (auto simp: storable_def split: sum.splits)
      have wr: "write_fn e b (disk st) parentDir ?h ?f = (None, disk st @ [artifact e parentDir resp])"
        using write_fn_storable [OF Cons.prems(6) b ok] .
      have "hosts ?st3 \<union> set (map responder (answers xs)) =
            hosts st \<union> set (map responder (answers (x # xs)))"
        using rs by auto
      moreover have "is_dir (disk ?st3) parentDir"
        using Cons.prems(6) by (simp add: is_dir_append)
      ultimately have "\<exists>st'. requestLoop e p parentDir url ?st3 xs =
             Returned (Some RequestsTimeoutExceeded) st' \<and>
           requests st' = requests ?st3 + length (takeWhile in_budget xs)"
        using Cons.prems(2-5) ok' by (intro Cons.IH rest late) auto
      then show ?thesis
        using run True tb resp new b wr Cons.prems(4) by (auto simp: Let_def)
    qed
  qed
qed

text \<open>
  Claim C3. Let the exchanges be responses throughout, with fewer than \<open>numberPods\<close>
  distinct identities among them and the local one, and let the clock pass the budget at
  some iteration. Then the collector (when the first response of each identity can be
  stored) and the broadcaster return the timeout error. The budget is read once in every
  iteration: the error is raised in the first iteration whose reading of
  \<open>time.Since(now)\<close> exceeds 15 seconds, after one request for each earlier reading, and
  not before. The timeout error differs from the error of a failed request, as a value
  and in its message.
\<close>

theorem too_few_peers_time_out:
  assumes "new_request_err e url = None"
    and "list_all answered xs"
    and "int (card (insert (hostname p) (set (map responder (answers xs))))) < numberPods p"
    and "\<exists>x \<in> set xs. \<not> in_budget x"
  shows "(list_all (storable e) (first_answers {hostname p} (answers xs)) \<and>
          is_dir fs parentDir \<longrightarrow>
          (\<exists>st. requestOtherProfile e p fs parentDir url xs =
                  Returned (Some RequestsTimeoutExceeded) st \<and>
                requests st = length (takeWhile in_budget xs) \<and>
                requests st < length xs \<and>
                15 * second < since (xs ! requests st))) \<and>
         (\<exists>st. resetOtherProfile e p fs url xs =
                  Returned (Some RequestsTimeoutExceeded) st \<and>
                requests st = length (takeWhile in_budget xs) \<and>
                requests st < length xs \<and>
                15 * second < since (xs ! requests st)) \<and>
         RequestsTimeoutExceeded \<noteq> FailedToPerformRequest m \<and>
         error_message RequestsTimeoutExceeded \<noteq> error_message (FailedToPerformRequest m)"
proof -
  note late = first_late [OF assms(4)]
  have late2: "15 * second < since (xs ! length (takeWhile in_budget xs))"
    using late(2) by (simp add: in_budget_def allReqTimeout_def)
  have start: "int (card ({hostname p} \<union> set (map responder (answers xs)))) < numberPods p"
    using assms(3) by simp
  have collect: "\<exists>st. requestOtherProfile e p fs parentDir url xs =
                  Returned (Some RequestsTimeoutExceeded) st \<and>
                requests st = length (takeWhile in_budget xs) \<and>
                requests st < length xs \<and>
                15 * second < since (xs ! requests st)"
    if "list_all (storable e) (first_answers {hostname p} (answers xs))" and "is_dir fs parentDir"
    using requestLoop_times_out [of xs "\<lparr>hosts = {hostname p}, disk = fs, requests = 0\<rparr>"
        p e url parentDir] that assms(1,2,4) start late(1) late2
    by (auto simp: requestOtherProfile_def)
  have reset: "\<exists>st. resetOtherProfile e p fs url xs =
                  Returned (Some RequestsTimeoutExceeded) st \<and>
                requests st = length (takeWhile in_budget xs) \<and>
                requests st < length xs \<and>
                15 * second < since (xs ! requests st)"
    using resetLoop_times_out [of xs "\<lparr>hosts = {hostname p}, disk = fs, requests = 0\<rparr>"
        p e url] assms(1,2,4) start late(1) late2
    by (auto simp: resetOtherProfile_def)
  have "error_message RequestsTimeoutExceeded \<noteq> error_message (FailedToPerformRequest m)"
    by simp
  with collect reset show ?thesis
    by blast
qed

theorem too_few_peers_time_out_witness:
  "new_request_err cover_env ''u'' = None \<and>
   list_all answered one_peer_only \<and>
   int (card (insert (hostname (pod ''pod-a'' 3)) (set (map responder (answers one_peer_only))))) <
     numberPods (pod ''pod-a'' 3) \<and>
   (\<exists>x \<in> set one_peer_only. \<not> in_budget x) \<and>
   list_all (storable cover_env) (first_answers {hostname (pod ''pod-a'' 3)} (answers one_peer_only)) \<and>
   is_dir scratch0 (Some 0) \<and>
   (\<exists>st. requestOtherProfile cover_env (pod ''pod-a'' 3) scratch0 (Some 0) ''u'' one_peer_only =
           Returned (Some RequestsTimeoutExceeded) st \<and>
         requests st = 6 \<and> 15 * second < since (one_peer_only ! requests st)) \<and>
   (\<exists>st. resetOtherProfile cover_env (pod ''pod-a'' 3) scratch0 ''u'' one_peer_only =
           Returned (Some RequestsTimeoutExceeded) st \<and>
         requests st = 6 \<and> 15 * second < since (one_peer_only ! requests st))"
proof -
  have h1: "new_request_err cover_env ''u'' = None"
    by (simp add: cover_env_def)
  have h2: "list_all answered one_peer_only"
    by (simp add: one_peer_only_def fixture_defs answered_def)
  have h3: "int (card (insert (hostname (pod ''pod-a'' 3))
               (set (map responder (answers one_peer_only))))) < numberPods (pod ''pod-a'' 3)"
    by (simp add: one_peer_only_def fixture_defs loop_defs responder_def)
  have h4: "\<exists>x \<in> set one_peer_only. \<not> in_budget x"
    by (simp add: one_peer_only_def fixture_defs loop_defs in_budget_def)
  have h5: "list_all (storable cover_env)
              (first_answers {hostname (pod ''pod-a'' 3)} (answers one_peer_only))"
    by (simp add: one_peer_only_def fixture_defs loop_defs storable_def join_target_def split_on_def
        responder_def)
  have h6: "is_dir scratch0 (Some 0)"
    by (simp add: scratch0_def is_dir_def)
  have n: "length (takeWhile in_budget one_peer_only) = 6"
    by (simp add: one_peer_only_def fixture_defs loop_defs in_budget_def)
  show ?thesis
    using too_few_peers_time_out [OF h1 h2 h3 h4, of scratch0 "Some 0"] h1 h2 h3 h4 h5 h6 n
    by auto
qed

text \<open>
  Claim C3 as stated fails. With four pods configured let the first request be routed back
  to the collecting pod and the later ones reach one peer, the clock passing the budget at
  the third. Only three identities can be seen, the local one, the empty one and the
  peer's, and every request is answered; but the collector returns after its first
  request, with the error of \<open>write\<close> for the response it could not store, and not with
  the timeout error.
\<close>

theorem too_few_peers_fail_before_budget:
  "new_request_err cover_env ''u'' = None \<and>
   list_all answered routed_back_then_late \<and>
   int (card (insert (hostname (pod ''pod-a'' 4))
               (set (map responder (answers routed_back_then_late))))) <
     numberPods (pod ''pod-a'' 4) \<and>
   (\<exists>x \<in> set routed_back_then_late. \<not> in_budget x) \<and>
   is_dir self_scratch (Some 0) \<and>
   requestOtherProfile cover_env (pod ''pod-a'' 4) self_scratch (Some 0) ''u''
       routed_back_then_late =
     Returned (Some (FailedToWriteResponse (ErrorCreatingFile ''is a directory'')))
       \<lparr>hosts = {[], ''pod-a''},
        disk = self_scratch @
          [\<lparr>parent = Some 0, pattern = [], entries = [(''covmeta.1'', ''M'')], live = True\<rparr>],
        requests = 1\<rparr> \<and>
   FailedToWriteResponse (ErrorCreatingFile ''is a directory'') \<noteq> RequestsTimeoutExceeded"
proof -
  have g: "response_of (w (CovBinProfileHandler cover_env (pod ''pod-a'' 4)
                       (own_request (pod ''pod-a'' 4)) (new_hstate []))) =
           \<lparr>status = 200, header = Map.empty, body = Inr []\<rparr>"
    by (simp add: CovBinProfileHandler_def own_request_def http_defs Header_Get_def)
  have xs: "routed_back_then_late =
     [\<lparr>since = 0, reply = Inr \<lparr>status = 200, header = Map.empty, body = Inr []\<rparr>\<rparr>,
      answer (3 * second) ''pod-b'' ''covcounters.9'' ''xyz'',
      answer (18 * second) ''pod-b'' ''covcounters.9'' ''xyz'']"
    unfolding routed_back_then_late_def g ..
  have a: "list_all answered routed_back_then_late"
    unfolding xs by (simp add: fixture_defs answered_def)
  have b: "int (card (insert (hostname (pod ''pod-a'' 4))
               (set (map responder (answers routed_back_then_late))))) = 3"
    unfolding xs by (simp add: fixture_defs loop_defs responder_def)
  have c: "\<exists>x \<in> set routed_back_then_late. \<not> in_budget x"
    unfolding xs by (simp add: fixture_defs loop_defs in_budget_def)
  have d: "requestOtherProfile cover_env (pod ''pod-a'' 4) self_scratch (Some 0) ''u''
       routed_back_then_late =
     Returned (Some (FailedToWriteResponse (ErrorCreatingFile ''is a directory'')))
       \<lparr>hosts = {[], ''pod-a''},
        disk = self_scratch @
          [\<lparr>parent = Some 0, pattern = [], entries = [(''covmeta.1'', ''M'')], live = True\<rparr>],
        requests = 1\<rparr>"
    unfolding xs by (simp add: fixture_defs loop_defs disk_defs self_scratch_def)
  show ?thesis
    using a b c d by (simp add: fixture_defs self_scratch_def is_dir_def)
qed









section \<open>The handlers and the loops together\<close>














section \<open>The identity\<close>

text \<open>
  \<open>%d\<close> prints a non-negative integer as a non-empty string of decimal digits, and the
  setters leave \<open>hostname\<close> alone.
\<close>

lemma digit_char:
  assumes "d < 10"
  shows "digit d \<in> set ''0123456789''"
  unfolding digit_def using assms by (intro nth_mem) simp

lemma decimal_digits: "list_all (\<lambda>c. c \<in> set ''0123456789'') (decimal n)"
proof (induction n rule: decimal.induct)
  case (1 n)
  show ?case
  proof (cases "n < 10")
    case True
    then show ?thesis
      using digit_char [of n] by (subst decimal.simps) simp
  next
    case False
    have "n mod 10 < 10" by simp
    then show ?thesis
      using False 1 digit_char [of "n mod 10"] by (subst decimal.simps) simp
  qed
qed

lemma decimal_not_empty: "decimal n \<noteq> []"
  by (subst decimal.simps) simp

lemma setters_keep_hostname: "hostname (foldl apply_setter p cs) = hostname p"
proof (induction cs arbitrary: p)
  case Nil
  show ?case by simp
next
  case (Cons c cs)
  show ?case
    by (cases c) (simp_all add: Cons SetNumberPods_def SetLogger_def)
qed

text \<open>
  Claim C8. When \<open>os.Hostname()\<close> fails, the identity is \<open>generated-hostname-\<close> followed by
  the decimal digits of the random integer; when it succeeds, the identity is the name it
  returned. The identity is fixed when the package is loaded: whatever calls of
  \<open>SetNumberPods\<close> and \<open>SetLogger\<close> follow, \<open>hostname\<close> reads as the same string, and
  the handlers and loops only read it.
\<close>

theorem identity_is_resolved_once:
  "(\<exists>ds. hostname_init (Inl err) n = ''generated-hostname-'' @ ds \<and> ds \<noteq> [] \<and>
         list_all (\<lambda>c. c \<in> set ''0123456789'') ds) \<and>
   hostname_init (Inr name) n = name \<and>
   hostname (package_init looked_up n) = hostname_init looked_up n \<and>
   hostname (foldl apply_setter (package_init looked_up n) cs) = hostname_init looked_up n"
proof -
  have "hostname_init (Inl err) n = ''generated-hostname-'' @ decimal n"
    by (simp add: hostname_init_def)
  then have "\<exists>ds. hostname_init (Inl err) n = ''generated-hostname-'' @ ds \<and> ds \<noteq> [] \<and>
         list_all (\<lambda>c. c \<in> set ''0123456789'') ds"
    using decimal_not_empty decimal_digits by blast
  then show ?thesis
    by (simp add: setters_keep_hostname hostname_init_def package_init_def)
qed

section \<open>The aggregator\<close>

text \<open>
  The scanning loop computes what the specification words: a line contains the marker
  if and only if splitting at the marker gives at least two pieces, and the text before
  the first percent sign is the first field of the split at percent signs.
\<close>

lemma marker_acc_not_empty: "marker_acc acc s \<noteq> []"
  by (induction acc s rule: marker_acc.induct) (subst marker_acc.simps, auto split: list.splits)

lemma marker_acc_length:
  "(2 \<le> length (marker_acc acc s)) = str_contains s marker"
proof (induction acc s rule: marker_acc.induct)
  case (1 acc s)
  show ?case
  proof (cases "has_prefix s marker")
    case True
    then have "s \<noteq> []"
      by (auto simp: has_prefix_def marker_def)
    then obtain x xs where s: "s = x # xs"
      by (cases s) auto
    have "marker_acc [] (drop (length marker) s) \<noteq> []"
      by (rule marker_acc_not_empty)
    then have "2 \<le> length (marker_acc acc s)"
      using True by (subst marker_acc.simps) (cases "marker_acc [] (drop (length marker) s)", auto)
    moreover have "str_contains s marker"
      using True s by simp
    ultimately show ?thesis by simp
  next
    case False
    show ?thesis
    proof (cases s)
      case Nil
      then show ?thesis
        using False by (subst marker_acc.simps) (simp add: marker_def)
    next
      case (Cons x xs)
      then show ?thesis
        using False "1.IH"(2) [OF False Cons] by (subst marker_acc.simps) simp
    qed
  qed
qed

lemma contains_iff: "str_contains l marker = (2 \<le> length (split_marker l))"
  by (simp add: split_marker_def marker_acc_length)

lemma split_acc_hd: "hd (split_acc c acc s) = rev acc @ takeWhile (\<lambda>x. x \<noteq> c) s"
  by (induction s arbitrary: acc) auto

lemma split_on_hd: "hd (split_on c s) = takeWhile (\<lambda>x. x \<noteq> c) s"
  by (simp add: split_on_def split_acc_hd)

lemma scanLoop_spec:
  "scanLoop ops t c raws =
     (case parse_all ops (map percentage (filter coverage_line (map dropCR (takeWhile short raws)))) of
        Inl m \<Rightarrow> Inl (FailedToParseCoverage m)
      | Inr vs \<Rightarrow>
          Inr (foldl (fadd ops) t vs,
               c + int (sum_list (map units (filter coverage_line (map dropCR (takeWhile short raws))))),
               if list_all short raws then None else Some ''bufio.Scanner: token too long''))"
proof (induction raws arbitrary: t c)
  case Nil
  show ?case by simp
next
  case (Cons raw rest)
  let ?ls = "filter coverage_line (map dropCR (takeWhile short rest))"
  show ?case
  proof (cases "short raw")
    case False
    then show ?thesis by (simp add: short_def)
  next
    case True
    then have sh: "\<not> MaxScanTokenSize \<le> length raw"
      by (simp add: short_def)
    have la: "list_all short (raw # rest) = list_all short rest"
      using True by simp
    show ?thesis
    proof (cases "coverage_line (dropCR raw)")
      case False
      then have step: "scanLoop ops t c (raw # rest) = scanLoop ops t c rest"
        using sh by (simp add: Let_def coverage_line_def)
      have f: "filter coverage_line (map dropCR (takeWhile short (raw # rest))) = ?ls"
        using True False by simp
      show ?thesis
        unfolding step f la by (rule Cons)
    next
      case cl: True
      then have has: "str_contains (dropCR raw) marker"
        by (simp add: contains_iff coverage_line_def)
      have f: "filter coverage_line (map dropCR (takeWhile short (raw # rest))) = dropCR raw # ?ls"
        using True cl by simp
      show ?thesis
      proof (cases "ParseFloat ops (percentage (dropCR raw))")
        case (Inl m)
        then have step: "scanLoop ops t c (raw # rest) = Inl (FailedToParseCoverage m)"
          using sh has cl by (simp add: Let_def coverage_line_def percentage_def split_on_hd)
        show ?thesis
          unfolding step f using Inl by simp
      next
        case (Inr v)
        then have step: "scanLoop ops t c (raw # rest) =
            scanLoop ops (fadd ops t v) (c + int (units (dropCR raw))) rest"
          using sh has cl
          by (simp add: Let_def coverage_line_def percentage_def split_on_hd units_def)
        show ?thesis
          unfolding step f la Cons [of "fadd ops t v" "c + int (units (dropCR raw))"]
          using Inr by (cases "parse_all ops (map percentage ?ls)") simp_all
      qed
    qed
  qed
qed

lemma calculateTotalCoverage_spec:
  "calculateTotalCoverage ops output = mean_coverage ops output"
  by (simp add: calculateTotalCoverage_def mean_coverage_def scanLoop_spec scanned_def Let_def
      split: sum.splits)

text \<open>
  The example of the specification, line by line; inputs of one line; and lines without
  the marker.
\<close>

lemmas text_defs = raw_lines_def dropCR_def marker_def has_prefix_def TrimSpace_def
  white_space_def MaxScanTokenSize_def split_on_def split_marker_def marker_acc.simps
  strip_leading.simps short_def

lemma example_sm1: "split_marker example_line1 = [''pkg/a'' @ [CHR 0x09] @ ''pkg/b'' @ [CHR 0x09], '' 50.0% of statements'']"
  by (simp add: example_line1_def split_marker_def marker_acc.simps marker_def has_prefix_def)


lemma example_ts1: "TrimSpace '' 50.0% of statements'' = ''50.0% of statements''"
  by (simp add: TrimSpace_def white_space_def has_prefix_def strip_leading.simps)


lemma example_pc1: "percentage example_line1 = ''50.0''"
  by (simp add: percentage_def example_sm1 example_ts1) (simp add: TrimSpace_def white_space_def has_prefix_def strip_leading.simps)

lemma example_un1: "units example_line1 = 2"
  by (simp add: units_def example_sm1 split_on_def) (simp add: TrimSpace_def white_space_def has_prefix_def strip_leading.simps)


lemma example_rl: "raw_lines example_report = [example_line1, example_line2]"
  by (simp add: raw_lines_def example_report_def split_on_def example_line1_def example_line2_def)

lemma example_sh: "short example_line1" "short example_line2"
  by (simp_all add: short_def MaxScanTokenSize_def example_line1_def example_line2_def)


lemma example_sm2: "split_marker example_line2 = [''pkg/c'' @ [CHR 0x09], '' 100.0% of statements'']"
  by (simp add: example_line2_def split_marker_def marker_acc.simps marker_def has_prefix_def)

lemma example_ts2: "TrimSpace '' 100.0% of statements'' = ''100.0% of statements''"
  by (simp add: TrimSpace_def white_space_def has_prefix_def strip_leading.simps)

lemma example_pc2: "percentage example_line2 = ''100.0''"
  by (simp add: percentage_def example_sm2 example_ts2) (simp add: TrimSpace_def white_space_def has_prefix_def strip_leading.simps)

lemma example_un2: "units example_line2 = 1"
  by (simp add: units_def example_sm2 split_on_def) (simp add: TrimSpace_def white_space_def has_prefix_def strip_leading.simps)

lemma example_dr: "dropCR example_line1 = example_line1" "dropCR example_line2 = example_line2"
  by (simp_all add: dropCR_def example_line1_def example_line2_def)

lemma example_cl: "coverage_line example_line1" "coverage_line example_line2"
  by (simp_all add: coverage_line_def example_sm1 example_sm2)

lemma example_lines: "filter coverage_line (scanned example_report) = [example_line1, example_line2]"
  by (simp add: scanned_def example_rl example_sh example_dr example_cl)

lemma example_mean:
  assumes "ParseFloat ops ''50.0'' = Inr a" and "ParseFloat ops ''100.0'' = Inr b"
  shows "mean_coverage ops example_report =
           Inr (fdiv ops (fadd ops (fadd ops (fzero ops) a) b) (of_count ops 3))"
  using assms
  by (simp add: mean_coverage_def example_lines example_rl example_sh example_pc1 example_pc2 example_un1 example_un2)

lemma split_acc_no_sep: "c \<notin> set s \<Longrightarrow> split_acc c acc s = [rev acc @ s]"
  by (induction s arbitrary: acc) auto

lemma raw_lines_one: "CHR 0x0A \<notin> set s \<Longrightarrow> s \<noteq> [] \<Longrightarrow> raw_lines s = [s]"
  by (simp add: raw_lines_def split_on_def split_acc_no_sep)

lemma contains_marker_has_c: "str_contains s marker \<Longrightarrow> CHR ''c'' \<in> set s"
proof (induction s)
  case Nil
  then show ?case by (simp add: marker_def)
next
  case (Cons x xs)
  then show ?case
    by (auto simp: has_prefix_def marker_def)
qed

lemma long_line_facts:
  "raw_lines long_line = [long_line]" "\<not> short long_line" "\<not> str_contains long_line marker"
proof -
  show "raw_lines long_line = [long_line]"
    by (rule raw_lines_one) (auto simp: long_line_def)
  show "\<not> short long_line"
    by (simp add: short_def long_line_def MaxScanTokenSize_def)
  show "\<not> str_contains long_line marker"
    using contains_marker_has_c [of long_line] by (auto simp: long_line_def)
qed

lemma long_line_result:
  "calculateTotalCoverage ops long_line = Inl (ErrorReadingOutput ''bufio.Scanner: token too long'')"
  by (simp add: calculateTotalCoverage_spec mean_coverage_def scanned_def long_line_facts)


lemma has_prefix_butlast:
  assumes "has_prefix (butlast s) p"
  shows "has_prefix s p"
proof -
  from assms have eq: "take (length p) (butlast s) = p"
    by (simp add: has_prefix_def)
  then have "length (take (length p) (butlast s)) = length p"
    by simp
  then have le: "length p \<le> length (butlast s)"
    by simp
  have "take (length p) (butlast s) = take (length p) s"
  proof (cases "s = []")
    case True
    then show ?thesis by simp
  next
    case False
    then have n: "length s \<noteq> 0"
      by simp
    from le have "length p \<le> length s - 1"
      by (simp only: length_butlast)
    with n have "length p < length s"
      by linarith
    then show ?thesis
      by (rule take_butlast)
  qed
  with eq show ?thesis
    by (simp add: has_prefix_def)
qed

lemma str_contains_butlast: "str_contains (butlast s) p \<Longrightarrow> str_contains s p"
proof (induction s)
  case Nil
  then show ?case by simp
next
  case (Cons x xs)
  show ?case
  proof (cases "xs = []")
    case True
    with Cons.prems show ?thesis by (simp add: has_prefix_def)
  next
    case False
    with Cons.prems have "has_prefix (butlast (x # xs)) p \<or> str_contains (butlast xs) p"
      by simp
    then show ?thesis
      using has_prefix_butlast [of "x # xs" p] Cons.IH by auto
  qed
qed

lemma no_marker_no_coverage_line:
  assumes "\<not> str_contains l marker"
  shows "\<not> coverage_line (dropCR l)"
proof -
  have "\<not> str_contains (dropCR l) marker"
    using assms str_contains_butlast [of l marker] by (auto simp: dropCR_def)
  then show ?thesis
    by (simp add: coverage_line_def contains_iff)
qed

lemma no_marker_lines:
  assumes "list_all (\<lambda>l. \<not> str_contains l marker) ls"
  shows "filter coverage_line (map dropCR (takeWhile short ls)) = []"
proof -
  have "\<not> coverage_line (dropCR l)" if "l \<in> set (takeWhile short ls)" for l
    using that assms set_takeWhileD [of l short ls] no_marker_no_coverage_line
    by (auto simp: list_all_iff)
  then show ?thesis
    by (auto simp: filter_empty_conv)
qed

lemma parse_all_first_error:
  assumes "parse_all ops good = Inr vs" and "ParseFloat ops t = Inl m"
  shows "parse_all ops (good @ t # rest) = Inl m"
  using assms by (induction good arbitrary: vs) (auto split: sum.splits)

lemmas fixed_defs = fixed_ops_def parse_hundredths_def digit_of_def format_hundredths_def
  digit_def split_on_def

lemma bad_report_facts:
  "filter coverage_line (scanned bad_report) = [bad_report]"
  "percentage bad_report = ''[no statements]''"
proof -
  have parts: "split_marker bad_report = [''pkg/a'' @ [CHR 0x09], '' [no statements]'']"
    by (simp add: bad_report_def split_marker_def marker_acc.simps marker_def has_prefix_def)
  have only: "raw_lines bad_report = [bad_report]"
    by (rule raw_lines_one) (simp_all add: bad_report_def)
  have "short bad_report" "dropCR bad_report = bad_report"
    by (simp_all add: short_def MaxScanTokenSize_def dropCR_def bad_report_def)
  then show "filter coverage_line (scanned bad_report) = [bad_report]"
    by (simp add: scanned_def only coverage_line_def parts)
  have "TrimSpace '' [no statements]'' = ''[no statements]''"
    by (simp add: TrimSpace_def white_space_def has_prefix_def strip_leading.simps)
  then show "percentage bad_report = ''[no statements]''"
    by (simp add: percentage_def parts)
      (simp add: TrimSpace_def white_space_def has_prefix_def strip_leading.simps)
qed

text \<open>
  Claim C5, as the code has it. \<open>calculateTotalCoverage\<close> returns what \<open>mean_coverage\<close>
  describes: over the lines before the first one of 65536 bytes or more, and among them
  those that contain \<open>coverage:\<close> exactly once, a parse error for the first percentage
  that is not a valid number; otherwise a read error when a line was too long;
  otherwise the no-data error when no token was counted; otherwise the sum of the
  percentages divided by the number of tab-separated tokens before the markers that are
  not empty after trimming. On the example of the specification this is the sum of the
  two parsed values divided by 3, which in \<open>float64\<close> is (50 + 100) / 3 = 50 exactly. On
  input whose lines are all shorter than 65536 bytes and none of which contains the
  marker it is the no-data error. When the first percentage that does not parse comes
  after percentages that do, it is the parse error of that one.
\<close>

theorem aggregator_returns_mean:
  "calculateTotalCoverage ops output = mean_coverage ops output \<and>
   (ParseFloat ops ''50.0'' = Inr a \<and> ParseFloat ops ''100.0'' = Inr b \<longrightarrow>
      calculateTotalCoverage ops example_report =
        Inr (fdiv ops (fadd ops (fadd ops (fzero ops) a) b) (of_count ops 3))) \<and>
   (list_all short (raw_lines output) \<and>
    list_all (\<lambda>l. \<not> str_contains l marker) (raw_lines output) \<longrightarrow>
      calculateTotalCoverage ops output = Inl NoCoverageData) \<and>
   (filter coverage_line (scanned output) = good @ l # rest \<and>
    parse_all ops (map percentage good) = Inr vs \<and>
    ParseFloat ops (percentage l) = Inl m \<longrightarrow>
      calculateTotalCoverage ops output = Inl (FailedToParseCoverage m))"
proof (intro conjI impI)
  show "calculateTotalCoverage ops output = mean_coverage ops output"
    by (rule calculateTotalCoverage_spec)
next
  assume "ParseFloat ops ''50.0'' = Inr a \<and> ParseFloat ops ''100.0'' = Inr b"
  then show "calculateTotalCoverage ops example_report =
        Inr (fdiv ops (fadd ops (fadd ops (fzero ops) a) b) (of_count ops 3))"
    by (simp add: calculateTotalCoverage_spec example_mean)
next
  assume a: "list_all short (raw_lines output) \<and>
    list_all (\<lambda>l. \<not> str_contains l marker) (raw_lines output)"
  then have "filter coverage_line (scanned output) = []"
    by (simp add: scanned_def no_marker_lines)
  with a show "calculateTotalCoverage ops output = Inl NoCoverageData"
    by (simp add: calculateTotalCoverage_spec mean_coverage_def)
next
  assume a: "filter coverage_line (scanned output) = good @ l # rest \<and>
    parse_all ops (map percentage good) = Inr vs \<and>
    ParseFloat ops (percentage l) = Inl m"
  then have "parse_all ops (map percentage (filter coverage_line (scanned output))) = Inl m"
    using parse_all_first_error [of ops "map percentage good" vs "percentage l" m
        "map percentage rest"]
    by simp
  then show "calculateTotalCoverage ops output = Inl (FailedToParseCoverage m)"
    by (simp add: calculateTotalCoverage_spec mean_coverage_def)
qed

theorem aggregator_returns_mean_witness:
  "ParseFloat fixed_ops ''50.0'' = Inr 5000 \<and>
   ParseFloat fixed_ops ''100.0'' = Inr 10000 \<and>
   calculateTotalCoverage fixed_ops example_report = Inr 5000 \<and>
   format2 fixed_ops 5000 = ''50.00'' \<and>
   list_all short (raw_lines ''no report'') \<and>
   list_all (\<lambda>l. \<not> str_contains l marker) (raw_lines ''no report'') \<and>
   calculateTotalCoverage fixed_ops ''no report'' = Inl NoCoverageData \<and>
   filter coverage_line (scanned bad_report) = [] @ bad_report # [] \<and>
   parse_all fixed_ops (map percentage []) = Inr [] \<and>
   ParseFloat fixed_ops (percentage bad_report) = Inl ''invalid syntax'' \<and>
   calculateTotalCoverage fixed_ops bad_report = Inl (FailedToParseCoverage ''invalid syntax'')"
proof -
  have p: "ParseFloat fixed_ops ''50.0'' = Inr 5000" "ParseFloat fixed_ops ''100.0'' = Inr 10000"
    by (simp_all add: fixed_defs)
  have v: "fdiv fixed_ops (fadd fixed_ops (fadd fixed_ops (fzero fixed_ops) 5000) 10000)
             (of_count fixed_ops 3) = 5000"
    "format2 fixed_ops 5000 = ''50.00''"
    by (simp_all add: fixed_defs)
  have "calculateTotalCoverage fixed_ops example_report =
      Inr (fdiv fixed_ops (fadd fixed_ops (fadd fixed_ops (fzero fixed_ops) 5000) 10000)
             (of_count fixed_ops 3))"
    using aggregator_returns_mean [of fixed_ops example_report 5000 10000] p by blast
  then have ex: "calculateTotalCoverage fixed_ops example_report = Inr 5000"
    by (simp only: v)
  have only: "raw_lines ''no report'' = [''no report'']"
    by (rule raw_lines_one) simp_all
  have n: "list_all short (raw_lines ''no report'')"
    "list_all (\<lambda>l. \<not> str_contains l marker) (raw_lines ''no report'')"
    unfolding only using contains_marker_has_c [of "''no report''"]
    by (auto simp: short_def MaxScanTokenSize_def)
  have nd: "calculateTotalCoverage fixed_ops ''no report'' = Inl NoCoverageData"
    using aggregator_returns_mean [of fixed_ops "''no report''"] n by blast
  have b: "filter coverage_line (scanned bad_report) = [] @ bad_report # []"
    "parse_all fixed_ops (map percentage []) = Inr []"
    "ParseFloat fixed_ops (percentage bad_report) = Inl ''invalid syntax''"
    by (simp_all add: bad_report_facts fixed_defs)
  have pe: "calculateTotalCoverage fixed_ops bad_report =
      Inl (FailedToParseCoverage ''invalid syntax'')"
    using aggregator_returns_mean [of fixed_ops bad_report _ _ "[]" bad_report "[]" "[]"
        "''invalid syntax''"] b by blast
  from p v ex n nd b pe show ?thesis
    by blast
qed

text \<open>
  Claim C5 as stated fails on an input without any \<open>coverage:\<close> line: one line of 65536
  bytes gives the scanner's error, not the no-data error.
\<close>

theorem aggregator_reports_long_line:
  "list_all (\<lambda>l. \<not> str_contains l marker) (raw_lines long_line) \<and>
   calculateTotalCoverage fixed_ops long_line =
     Inl (ErrorReadingOutput ''bufio.Scanner: token too long'')"
  by (simp add: long_line_facts long_line_result)

section \<open>The percent endpoint\<close>

text \<open>
  The steps of \<open>CovPercentHandler\<close> on two inputs: a second pod that refuses the
  connection, and a binary without coverage meta-data.
\<close>

lemma example_total: "calculateTotalCoverage fixed_ops example_report = Inr 5000"
proof -
  have "ParseFloat fixed_ops ''50.0'' = Inr 5000" "ParseFloat fixed_ops ''100.0'' = Inr 10000"
    by (simp_all add: fixed_defs)
  then have "mean_coverage fixed_ops example_report =
      Inr (fdiv fixed_ops (fadd fixed_ops (fadd fixed_ops (fzero fixed_ops) 5000) 10000)
             (of_count fixed_ops 3))"
    by (rule example_mean)
  then show ?thesis
    by (simp add: calculateTotalCoverage_spec fixed_defs)
qed

lemma peer_failure_local_dump: "writeBinCoverage report_env (pod ''pod-a'' 2) [] = ((Some 0, None), self_scratch)"
  by (simp add: writeBinCoverage_def report_env_def fixture_defs disk_defs self_scratch_def)

lemma peer_failure_collect: "requestOtherProfile report_env (pod ''pod-a'' 2) self_scratch (Some 0)
             (getURL bare_request False) [refused 0] =
           Returned (Some (FailedToPerformRequest ''connection refused''))
             \<lparr>hosts = {''pod-a''}, disk = self_scratch, requests = 1\<rparr>"
  by (simp add: report_env_def fixture_defs loop_defs)

lemma peer_failure_merge: "mergeProfiles report_env (Some 0) self_scratch =
     ((Some 2, None),
      self_scratch @ [\<lparr>parent = Some 0, pattern = ''merged'', entries = [], live = True\<rparr>])"
  by (simp add: mergeProfiles_def os_ReadDir_def subdirs_def report_env_def fixture_defs disk_defs
      self_scratch_def)

lemma peer_failure_percent: "percent_tail fixed_ops report_env (Some 2) s =
     respond (Write_body (''Total Average Coverage: 50.00'' @ [CHR ''%'', CHR 0x0A]))
       (respond (Header_Set ''Content-Type'' ''text/plain'')
          (called Call_calculateTotalCoverage (called Call_covdata_percent s)))"
proof -
  have "covdata_percent report_env fs (Some 2) = Inr example_report" for fs
    by (simp add: report_env_def cover_env_def)
  moreover have "format2 fixed_ops 5000 = ''50.00''"
    by (simp add: fixed_defs)
  ultimately show ?thesis
    by (simp add: percent_tail_def example_total Let_def)
qed

lemma uncovered_local_dump: "writeBinCoverage uncovered_env (pod ''pod-a'' 1) [] =
     ((None, Some (ErrorWritingMeta ''no meta-data available'')),
      [\<lparr>parent = None, pattern = ''coverage'', entries = [], live = True\<rparr>,
       \<lparr>parent = Some 0, pattern = ''pod-a'', entries = [], live = True\<rparr>])"
  by (simp add: writeBinCoverage_def uncovered_env_def report_env_def fixture_defs disk_defs)

lemma uncovered_collect: "requestOtherProfile uncovered_env (pod ''pod-a'' 1) fs None url [] =
     Returned None \<lparr>hosts = {''pod-a''}, disk = fs, requests = 0\<rparr>"
  by (simp add: requestOtherProfile_def pod_def)

lemma merge_without_directory: "mergeProfiles e None fs = ((None, Some (ReadDirError ''no such file or directory'')), fs)"
  by (simp add: mergeProfiles_def os_ReadDir_def)

lemma uncovered_percent: "percent_tail fixed_ops uncovered_env None s =
     respond (WriteHeader StatusInternalServerError)
       (Errorf (''error running merging coverage data: exit status 1'' @ [CHR 0x0A])
          (called Call_covdata_percent s))"
proof -
  have "covdata_percent uncovered_env fs None = Inl ''exit status 1''" for fs
    by (simp add: uncovered_env_def report_env_def cover_env_def)
  then show ?thesis
    by (simp add: percent_tail_def Let_def)
qed

text \<open>
  Claim C7 does not hold of the code. When the only peer refuses the connection, the
  handler writes status 500 and logs the error, and then goes on: it merges what it has,
  runs the percent tool, aggregates, and writes the average of the local data alone as
  the body of the 500 response. When the local dump fails, it still calls the collector,
  the merge and the percent tool, and logs three errors. Only the last two steps are
  followed by a \<open>return\<close>.
\<close>

theorem percent_handler_goes_on_after_failure:
  "map_option (\<lambda>s. (code (w s), out (w s), errors_logged s, sent s, calls s))
     (CovPercentHandler fixed_ops report_env (pod ''pod-a'' 2) bare_request [refused 0]
        (new_hstate [])) =
   Some (500, ''Total Average Coverage: 50.00'' @ [CHR ''%'', CHR 0x0A],
         [''failed to perform request: connection refused''], 1,
         [Call_writeBinCoverage, Call_requestOtherProfile, Call_mergeProfiles,
          Call_covdata_percent, Call_calculateTotalCoverage]) \<and>
   map_option (\<lambda>s. (code (w s), out (w s), errors_logged s, calls s))
     (CovPercentHandler fixed_ops uncovered_env (pod ''pod-a'' 1) bare_request [] (new_hstate [])) =
   Some (500, [],
         [''error writing meta coverage data: no meta-data available'',
          ''no such file or directory'',
          ''error running merging coverage data: exit status 1'' @ [CHR 0x0A]],
         [Call_writeBinCoverage, Call_requestOtherProfile, Call_mergeProfiles,
          Call_covdata_percent])"
proof
  show "map_option (\<lambda>s. (code (w s), out (w s), errors_logged s, sent s, calls s))
     (CovPercentHandler fixed_ops report_env (pod ''pod-a'' 2) bare_request [refused 0]
        (new_hstate [])) =
   Some (500, ''Total Average Coverage: 50.00'' @ [CHR ''%'', CHR 0x0A],
         [''failed to perform request: connection refused''], 1,
         [Call_writeBinCoverage, Call_requestOtherProfile, Call_mergeProfiles,
          Call_covdata_percent, Call_calculateTotalCoverage])"
    by (simp add: CovPercentHandler_def peer_failure_local_dump peer_failure_collect
        peer_failure_merge peer_failure_percent fail_if_def http_defs Let_def)
  show "map_option (\<lambda>s. (code (w s), out (w s), errors_logged s, calls s))
     (CovPercentHandler fixed_ops uncovered_env (pod ''pod-a'' 1) bare_request [] (new_hstate [])) =
   Some (500, [],
         [''error writing meta coverage data: no meta-data available'',
          ''no such file or directory'',
          ''error running merging coverage data: exit status 1'' @ [CHR 0x0A]],
         [Call_writeBinCoverage, Call_requestOtherProfile, Call_mergeProfiles,
          Call_covdata_percent])"
    by (simp add: CovPercentHandler_def uncovered_local_dump uncovered_collect
        merge_without_directory uncovered_percent fail_if_def http_defs Let_def)
qed

end
